theory Spec2Isabelle
  imports Complex_Main "HOL-Library.Multiset" "HOL-Library.Sublist"
begin

section \<open>JavaScript strings\<close>

text \<open>
  A JavaScript string is a sequence of UTF-16 code units; \<open>length\<close>, \<open>trim\<close>, \<open>split\<close>
  and the regular expressions of the agent all work on code units.  A code unit is
  modelled as a natural number, a string as a list of them.  \<open>js\<close> turns an ASCII
  literal into its code units; characters beyond ASCII are written by their number
  (the em dash of the templates is 8212).
\<close>

type_synonym jsstring = "nat list"

definition js :: "string \<Rightarrow> jsstring" where
  "js s = map of_char s"

text \<open>
  The white space of \<open>String.prototype.trim\<close> and of the class escape \<open>\s\<close>
  (ECMAScript WhiteSpace and LineTerminator), as ranges of code units.
\<close>

definition wsRanges :: "(nat \<times> nat) list" where
  "wsRanges = [(9, 13), (32, 32), (160, 160), (5760, 5760), (8192, 8202),
               (8232, 8233), (8239, 8239), (8287, 8287), (12288, 12288), (65279, 65279)]"

definition inRanges :: "(nat \<times> nat) list \<Rightarrow> nat \<Rightarrow> bool" where
  "inRanges rs c = list_ex (\<lambda>(lo, hi). lo \<le> c \<and> c \<le> hi) rs"

definition isSpace :: "nat \<Rightarrow> bool" where
  "isSpace c = inRanges wsRanges c"

definition isLineTerminator :: "nat \<Rightarrow> bool" where
  "isLineTerminator c = (c = 10 \<or> c = 13 \<or> c = 8232 \<or> c = 8233)"

definition isDigit :: "nat \<Rightarrow> bool" where
  "isDigit c = (48 \<le> c \<and> c \<le> 57)"

definition trim :: "jsstring \<Rightarrow> jsstring" where
  "trim s = rev (dropWhile isSpace (rev (dropWhile isSpace s)))"

text \<open>\<open>Array.prototype.join\<close> on an array of strings.\<close>

fun join :: "jsstring \<Rightarrow> jsstring list \<Rightarrow> jsstring" where
  "join sep [] = []"
| "join sep [x] = x"
| "join sep (x # y # ys) = x @ sep @ join sep (y # ys)"

text \<open>
  The decimal digits of a natural number, as a template literal renders a
  non-negative integer (positions and scores stay far below \<open>10\<^sup>2\<^sup>1\<close>, where
  JavaScript would switch to exponent notation).
\<close>

fun natToString :: "nat \<Rightarrow> jsstring" where
  "natToString n = (if n < 10 then [48 + n] else natToString (n div 10) @ [48 + n mod 10])"

declare natToString.simps [simp del]

section \<open>Regular expressions\<close>

text \<open>
  The fragment of ECMAScript regular expressions the agent uses: characters, the dot,
  character classes (possibly negated), sequence, alternation and the greedy
  quantifiers \<open>*\<close>, \<open>+\<close>, \<open>?\<close>.  There are no anchors, groups that capture, or
  look-around, so a match at a position depends on the rest of the input only.
\<close>

datatype regex =
    Eps
  | Lit nat
  | Dot
  | Cls bool "(nat \<times> nat) list"
  | Seq regex regex
  | Alt regex regex
  | Star regex
  | Plus regex
  | Opt regex

text \<open>
  \<open>Canonicalize\<close> of the \<open>i\<close> flag (without \<open>u\<close>): a code unit is compared by its
  upper-case form, and a code unit from 128 on never canonicalizes to an ASCII one.
  Every pattern of the agent is ASCII, so only the ASCII letters need their mapping;
  the other code units are left as they are.
\<close>

definition canon :: "bool \<Rightarrow> nat \<Rightarrow> nat" where
  "canon ic c = (if ic \<and> 97 \<le> c \<and> c \<le> 122 then c - 32 else c)"

definition inClass :: "bool \<Rightarrow> (nat \<times> nat) list \<Rightarrow> nat \<Rightarrow> bool" where
  "inClass ic rs c =
     (if ic then list_ex (\<lambda>(lo, hi). list_ex (\<lambda>a. canon ic a = canon ic c) [lo ..< Suc hi]) rs
      else inRanges rs c)"

fun rweight :: "regex \<Rightarrow> nat" where
  "rweight (Seq r1 r2) = Suc (rweight r1 + rweight r2)"
| "rweight (Alt r1 r2) = Suc (rweight r1 + rweight r2)"
| "rweight (Star r) = Suc (rweight r)"
| "rweight (Plus r) = Suc (Suc (rweight r))"
| "rweight (Opt r) = Suc (rweight r)"
| "rweight r = 0"

text \<open>
  \<open>rmatch ic r s\<close> lists, in the order a backtracking matcher tries them, what is left
  of \<open>s\<close> after each way \<open>r\<close> can match at the start of \<open>s\<close>.  The empty list is failure,
  the head is the match the engine reports.  A \<open>*\<close> gives up an iteration that
  consumed nothing, as RepeatMatcher does; \<open>r+\<close> is one \<open>r\<close> followed by \<open>r*\<close>.
\<close>

function rmatch :: "bool \<Rightarrow> regex \<Rightarrow> jsstring \<Rightarrow> jsstring list" where
  "rmatch ic Eps s = [s]"
| "rmatch ic (Lit a) s =
     (case s of [] \<Rightarrow> [] | c # cs \<Rightarrow> if canon ic c = canon ic a then [cs] else [])"
| "rmatch ic Dot s =
     (case s of [] \<Rightarrow> [] | c # cs \<Rightarrow> if isLineTerminator c then [] else [cs])"
| "rmatch ic (Cls neg rs) s =
     (case s of [] \<Rightarrow> [] | c # cs \<Rightarrow> if inClass ic rs c \<noteq> neg then [cs] else [])"
| "rmatch ic (Seq r1 r2) s = concat (map (rmatch ic r2) (rmatch ic r1 s))"
| "rmatch ic (Alt r1 r2) s = rmatch ic r1 s @ rmatch ic r2 s"
| "rmatch ic (Star r) s =
     concat (map (\<lambda>s'. if length s' < length s then rmatch ic (Star r) s' else [])
                 (rmatch ic r s)) @ [s]"
| "rmatch ic (Plus r) s = concat (map (rmatch ic (Star r)) (rmatch ic r s))"
| "rmatch ic (Opt r) s = rmatch ic r s @ [s]"
  by pat_completeness auto
termination
  by (relation "measures [\<lambda>(ic, r, s). rweight r, \<lambda>(ic, r, s). length s]") auto

declare rmatch.simps [simp del]

text \<open>\<open>RegExp.prototype.test\<close> without the \<open>g\<close> flag: is there a match at some position?\<close>

fun rtest :: "bool \<Rightarrow> regex \<Rightarrow> jsstring \<Rightarrow> bool" where
  "rtest ic r [] = (rmatch ic r [] \<noteq> [])"
| "rtest ic r (c # cs) = (rmatch ic r (c # cs) \<noteq> [] \<or> rtest ic r cs)"

text \<open>A literal word as a pattern.\<close>

fun word :: "jsstring \<Rightarrow> regex" where
  "word [] = Eps"
| "word [c] = Lit c"
| "word (c # cs) = Seq (Lit c) (word cs)"

fun alts :: "regex list \<Rightarrow> regex" where
  "alts [] = Eps"
| "alts [r] = r"
| "alts (r # rs) = Alt r (alts rs)"

text \<open>
  \<open>String.prototype.replace\<close> with a global pattern and a replacement text free of
  \<open>$\<close>: every match, found left to right, is replaced; after an empty match the
  search moves on by one code unit.
\<close>

function rreplace :: "bool \<Rightarrow> regex \<Rightarrow> jsstring \<Rightarrow> jsstring \<Rightarrow> jsstring" where
  "rreplace ic r rep s =
     (case rmatch ic r s of
        [] \<Rightarrow> (case s of [] \<Rightarrow> [] | c # cs \<Rightarrow> c # rreplace ic r rep cs)
      | rest # _ \<Rightarrow>
          if length rest < length s then rep @ rreplace ic r rep rest
          else (case s of [] \<Rightarrow> rep | c # cs \<Rightarrow> rep @ c # rreplace ic r rep cs))"
  by pat_completeness auto
termination
  by (relation "measure (\<lambda>(ic, r, rep, s). length s)") auto

declare rreplace.simps [simp del]

text \<open>
  \<open>String.prototype.split\<close> with a pattern and no limit.  \<open>cur\<close> is the piece
  collected since the last separator.  A match is tried at every position before the
  end; an empty match right at the start of a piece is skipped.
\<close>

function rsplitFrom :: "bool \<Rightarrow> regex \<Rightarrow> jsstring \<Rightarrow> jsstring \<Rightarrow> jsstring list" where
  "rsplitFrom ic r cur s =
     (case s of
        [] \<Rightarrow> [cur]
      | c # cs \<Rightarrow>
          (case rmatch ic r s of
             [] \<Rightarrow> rsplitFrom ic r (cur @ [c]) cs
           | rest # _ \<Rightarrow>
               if length rest < length s then cur # rsplitFrom ic r [] rest
               else if cur = [] then rsplitFrom ic r [c] cs
               else cur # rsplitFrom ic r [c] cs))"
  by pat_completeness auto
termination
  by (relation "measure (\<lambda>(ic, r, cur, s). length s)") auto

declare rsplitFrom.simps [simp del]

definition rsplit :: "bool \<Rightarrow> regex \<Rightarrow> jsstring \<Rightarrow> jsstring list" where
  "rsplit ic r s =
     (if s = [] then (if rmatch ic r [] \<noteq> [] then [] else [Nil])
      else rsplitFrom ic r [] s)"

text \<open>A class item for each character of a literal.\<close>

definition chars :: "string \<Rightarrow> (nat \<times> nat) list" where
  "chars s = map (\<lambda>c. (of_char c, of_char c)) s"

definition words :: "string list \<Rightarrow> regex" where
  "words ws = alts (map (\<lambda>w. word (js w)) ws)"

section \<open>The agent: data\<close>

datatype AgentRole = System | User | Assistant

record AgentMessage =
  msg_role :: AgentRole
  msg_content :: jsstring

record AgentStep =
  title :: jsstring
  step_content :: jsstring

record AgentReply =
  role :: AgentRole
  content :: jsstring
  steps :: "AgentStep list"
  suggestions :: "jsstring list"

datatype Intent = Math | Plan | Brainstorm | Summarize | Prioritize | Insight

fun intentName :: "Intent \<Rightarrow> jsstring" where
  "intentName Math = js ''math''"
| "intentName Plan = js ''plan''"
| "intentName Brainstorm = js ''brainstorm''"
| "intentName Summarize = js ''summarize''"
| "intentName Prioritize = js ''prioritize''"
| "intentName Insight = js ''insight''"

text \<open>
  The expression parser is the library \<open>expr-eval\<close>, and the two number formats are
  built into the JavaScript runtime.  They are parameters of the model: \<open>evaluate\<close>
  either throws or returns a value, which is a number (finite, infinite or NaN) or
  something else.  A finite double is the real number it stands for, so that
  \<open>Math.abs(result) >= 1000\<close> is the comparison of reals.
\<close>

datatype error = SyntaxError | ParseError | TypeError

datatype jsnumber = Fin real | PosInfinity | NegInfinity | NaN

datatype jsvalue = JNumber jsnumber | JOther

record env =
  evaluate :: "jsstring \<Rightarrow> error + jsvalue"
  toLocaleString4 :: "real \<Rightarrow> jsstring"
  toPrecision8 :: "real \<Rightarrow> jsstring"

definition nl :: jsstring where
  "nl = [10]"

definition emDash :: jsstring where
  "emDash = [8212]"

definition KNOWLEDGE_BASE :: "(regex list \<times> jsstring) list" where
  "KNOWLEDGE_BASE =
    [([words [''productivity'', ''focus'', ''deep work'']],
      js ''- Alternate 50 minutes of focus with 10-minute resets.'' @ nl @
      js ''- Decide the single critical output before you start.'' @ nl @
      js ''- Park distracting ideas in an inbox so you can return without losing flow.''),
     ([words [''marketing'', ''campaign'', ''launch'']],
      js ''- Anchor on one memorable story per audience segment.'' @ nl @
      js ''- Repurpose high-performing assets into quick experiments on new channels.'' @ nl @
      js ''- Blend a fast feedback metric (CTR) with a slower health metric (share of conversation).''),
     ([words [''learning'', ''study'', ''exam'']],
      js ''- Begin with a spaced repetition sweep to surface weak spots.'' @ nl @
      js ''- Convert theories into applied micro-projects within 24 hours.'' @ nl @
      js ''- Teach the concept back to someone (or your notes) in plain language.'')]"

section \<open>The agent: expression evaluator\<close>

text \<open>The class \<open>[0-9+\-*/%^().,\s]\<close> without and with the comma.\<close>

definition exprClass :: "(nat \<times> nat) list" where
  "exprClass = [(48, 57)] @ chars ''+-*/%^().'' @ wsRanges"

definition cleanClass :: "(nat \<times> nat) list" where
  "cleanClass = [(48, 57)] @ chars ''+-*/%^().,'' @ wsRanges"

definition cleanExpression :: "jsstring \<Rightarrow> jsstring option" where
  "cleanExpression input =
     (let candidate = rreplace False (Lit 44) []
                        (rreplace False (Cls True cleanClass) [] input)
      in if trim candidate = [] then None
         else if \<not> rtest False (Cls False [(48, 57)]) candidate then None
         else Some candidate)"

definition msgNoExpression :: jsstring where
  "msgNoExpression =
     js ''I could not detect a solvable expression. Try something like `3 * (12 + 4)`.''"

definition msgNonNumeric :: jsstring where
  "msgNonNumeric =
     js ''That expression resolves to a non-numeric result, which I do not support yet.''"

definition msgMalformed :: jsstring where
  "msgMalformed =
     js ''That expression seems malformed. Try using only numbers and standard operators.''"

definition calculateExpression :: "env \<Rightarrow> jsstring \<Rightarrow> jsstring" where
  "calculateExpression e input =
     (case cleanExpression input of
        None \<Rightarrow> msgNoExpression
      | Some expression \<Rightarrow>
          if expression = [] then msgNoExpression
          else
            (case evaluate e expression of
               Inl err \<Rightarrow> msgMalformed
             | Inr (JNumber (Fin result)) \<Rightarrow>
                 (let formatted =
                        (if \<bar>result\<bar> \<ge> 1000 then toLocaleString4 e result
                         else toPrecision8 e result)
                  in js ''The expression '' @ trim expression @ js '' evaluates to **'' @
                     formatted @ js ''**.'')
             | Inr other \<Rightarrow> msgNonNumeric))"

section \<open>The agent: response generators\<close>

text \<open>\<open>Array.prototype.map\<close> with the callback's index argument.\<close>

definition mapIndexed :: "('a \<Rightarrow> nat \<Rightarrow> 'b) \<Rightarrow> 'a list \<Rightarrow> 'b list" where
  "mapIndexed f xs = map (\<lambda>(i, x). f x i) (zip [0 ..< length xs] xs)"

definition numbered :: "jsstring \<Rightarrow> nat \<Rightarrow> jsstring" where
  "numbered t i = natToString (i + 1) @ js ''. '' @ t"

definition buildPlan :: "jsstring \<Rightarrow> jsstring" where
  "buildPlan goal =
     (let trimmed = trim goal;
          tasks =
            [js ''Clarify the true objective and define a measurable finish line for \"'' @
               trimmed @ js ''\".'',
             js ''List the constraints (time, budget, collaborators) so we can work within them.'',
             js ''Break the work into 3-5 atomic actions that can each be completed in one sitting.'',
             js ''Sequence the actions by impact and dependency, then block time for the first step.'',
             js ''Create a feedback hook '' @ emDash @
               js '' what evidence will tell us we can adjust or stop?'']
      in join nl (mapIndexed numbered tasks))"

definition brainstormIdeas :: "jsstring \<Rightarrow> jsstring" where
  "brainstormIdeas topic =
     (let angles =
            [js ''Unexpected partnerships or audiences'',
             js ''Moments in the customer journey you can delight'',
             js ''Small experiments you can ship this week'',
             js ''Signals that prove the idea is working''];
          ideas =
            mapIndexed
              (\<lambda>angle idx. natToString (idx + 1) @ js ''. '' @ angle @ js '' '' @ emDash @
                 js '' specifically for \"'' @ trim topic @
                 js ''\". Think about what would feel refreshing compared to the status quo.'')
              angles
      in join nl ideas)"

text \<open>
  \<open>Array.prototype.slice(start)\<close>: a negative start counts from the end, and both
  ends are clamped to the array.
\<close>

definition sliceFrom :: "int \<Rightarrow> 'a list \<Rightarrow> 'a list" where
  "sliceFrom start xs =
     (let len = int (length xs);
          k = (if start < 0 then max (len + start) 0 else min start len)
      in drop (nat k) xs)"

definition msgNothingToSummarise :: jsstring where
  "msgNothingToSummarise =
     js ''We've just started chatting, so there's nothing to summarise yet.''"

definition bulletPoint :: "AgentMessage \<Rightarrow> jsstring" where
  "bulletPoint item =
     (let speaker = (if msg_role item = Assistant then js ''Radius'' else js ''You'')
      in js ''- '' @ speaker @ js '': '' @
         trim (rreplace False (Plus (Cls False wsRanges)) (js '' '') (msg_content item)))"

definition summarizeConversation :: "AgentMessage list \<Rightarrow> jsstring" where
  "summarizeConversation history =
     (let lastFew = filter (\<lambda>item. msg_role item \<noteq> System) (sliceFrom (- 6) history)
      in if length lastFew = 0 then msgNothingToSummarise
         else
           (let bulletPoints = map bulletPoint lastFew
            in join nl (js ''Here's what we covered recently:'' # bulletPoints)))"

record RankedTask =
  task :: jsstring
  score :: nat
  index :: nat

definition urgencyRx :: regex where
  "urgencyRx = words [''today'', ''urgent'', ''now'', ''soon'', ''asap'']"

definition impactHighRx :: regex where
  "impactHighRx = words [''launch'', ''client'', ''revenue'', ''milestone'', ''deadline'']"

definition impactMidRx :: regex where
  "impactMidRx = words [''review'', ''prep'', ''draft'']"

definition separatorRx :: regex where
  "separatorRx = Alt (Lit 10) (Alt (Lit 44) (Lit 59))"

definition rankTask :: "jsstring \<Rightarrow> nat \<Rightarrow> RankedTask" where
  "rankTask t i =
     (let urgencyScore = (if rtest True urgencyRx t then 3 else 1);
          impactScore =
            (if rtest True impactHighRx t then 3
             else if rtest True impactMidRx t then 2
             else 1);
          sc = urgencyScore * 2 + impactScore
      in \<lparr>task = t, score = sc, index = i\<rparr>)"

text \<open>The comparator \<open>b.score - a.score || a.index - b.index\<close>.\<close>

definition compareRanked :: "RankedTask \<Rightarrow> RankedTask \<Rightarrow> int" where
  "compareRanked a b =
     (let d = int (score b) - int (score a)
      in if d \<noteq> 0 then d else int (index a) - int (index b))"

text \<open>
  \<open>Array.prototype.sort\<close> with a comparator.  ECMAScript asks for a stable sort, and
  for a comparator that is a consistent order the result does not depend on the
  algorithm; the model is the stable insertion sort.
\<close>

fun insertBy :: "('a \<Rightarrow> 'a \<Rightarrow> int) \<Rightarrow> 'a \<Rightarrow> 'a list \<Rightarrow> 'a list" where
  "insertBy cmp x [] = [x]"
| "insertBy cmp x (y # ys) = (if cmp x y \<le> 0 then x # y # ys else y # insertBy cmp x ys)"

definition sortBy :: "('a \<Rightarrow> 'a \<Rightarrow> int) \<Rightarrow> 'a list \<Rightarrow> 'a list" where
  "sortBy cmp xs = foldr (insertBy cmp) xs []"

definition taskLines :: "jsstring \<Rightarrow> jsstring list" where
  "taskLines input =
     filter (\<lambda>line. length line > 4) (map trim (rsplit False separatorRx input))"

definition rankedTasks :: "jsstring list \<Rightarrow> RankedTask list" where
  "rankedTasks lines = sortBy compareRanked (mapIndexed rankTask lines)"

definition msgNoTasks :: jsstring where
  "msgNoTasks =
     js ''Please provide a list of tasks separated by commas or new lines so I can rank them.''"

definition renderRanked :: "RankedTask \<Rightarrow> nat \<Rightarrow> jsstring" where
  "renderRanked item position =
     natToString (position + 1) @ js ''. '' @ task item @ js '' '' @ emDash @
     js '' priority score '' @ natToString (score item)"

definition prioritiseTasks :: "jsstring \<Rightarrow> jsstring" where
  "prioritiseTasks input =
     (let lines = taskLines input
      in if length lines = 0 then msgNoTasks
         else join nl (mapIndexed renderRanked (rankedTasks lines)))"

definition matchKnowledge :: "jsstring \<Rightarrow> jsstring option" where
  "matchKnowledge input =
     (case find (\<lambda>(triggers, response). list_ex (\<lambda>regex. rtest True regex input) triggers)
             KNOWLEDGE_BASE of
        None \<Rightarrow> None
      | Some (triggers, response) \<Rightarrow> Some response)"

section \<open>The agent: intent classifier and dispatcher\<close>

definition mathRx :: regex where
  "mathRx = Seq (Cls False [(48, 57)]) (Seq (Plus (Cls False exprClass)) (Cls False [(48, 57)]))"

definition planRx :: regex where
  "planRx = words [''plan'', ''schedule'', ''roadmap'', ''steps'', ''strategy'']"

definition brainstormRx :: regex where
  "brainstormRx =
     Alt (word (js ''idea'')) (Alt (word (js ''ideas'')) (Alt (word (js ''brainstorm''))
       (Alt (word (js ''creative'')) (Seq (word (js ''name'')) (Opt (Lit 115))))))"

definition summarizeRx :: regex where
  "summarizeRx = words [''summarise'', ''summarize'', ''recap'', ''tl;dr'']"

definition prioritizeRx :: regex where
  "prioritizeRx =
     Alt (Seq (word (js ''prioriti'')) (Seq (Cls False (chars ''sz'')) (Lit 101)))
       (Alt (word (js ''ranking''))
         (Alt (Seq (word (js ''order'')) (Seq (Star Dot) (word (js ''tasks''))))
           (word (js ''what to do first''))))"

definition classifyIntent :: "jsstring \<Rightarrow> Intent" where
  "classifyIntent input =
     (if rtest False mathRx input then Math
      else if rtest True planRx input then Plan
      else if rtest True brainstormRx input then Brainstorm
      else if rtest True summarizeRx input then Summarize
      else if rtest True prioritizeRx input then Prioritize
      else Insight)"

fun followUpSuggestions :: "Intent \<Rightarrow> jsstring list" where
  "followUpSuggestions Math =
     [js ''Compare this result with another scenario'',
      js ''Ask me to turn the numbers into a short explanation'',
      js ''Create a table of outcomes with different variables'']"
| "followUpSuggestions Plan =
     [js ''Request a 7-day timeline for the plan'',
      js ''Ask for the single most important milestone'',
      js ''Turn the plan into calendar-friendly blocks'']"
| "followUpSuggestions Brainstorm =
     [js ''Narrow ideas down to one standout concept'',
      js ''Turn this concept into a user journey'',
      js ''Draft a 3-sentence pitch for the top idea'']"
| "followUpSuggestions Summarize =
     [js ''Extract action items from the summary'',
      js ''Highlight risks or open questions'',
      js ''Refine the summary for a stakeholder update'']"
| "followUpSuggestions Prioritize =
     [js ''Group tasks by effort versus impact'',
      js ''Schedule the top task with a realistic time slot'',
      js ''Delegate or defer the lowest priorities'']"
| "followUpSuggestions Insight =
     [js ''Ask me to dive deeper into one takeaway'',
      js ''Layer in real constraints (time, budget, audience)'',
      js ''Convert this into an actionable checklist'']"

definition idleReply :: AgentReply where
  "idleReply =
     \<lparr>role = Assistant,
      content = js ''I'm ready whenever you are.'',
      steps = [\<lparr>title = js ''Status'',
                step_content = js ''No user input detected, so I am idling.''\<rparr>],
      suggestions =
        [js ''Give me a goal with a tight deadline'',
         js ''Ask me to condense a long message'',
         js ''Share tasks and I will prioritise them'']\<rparr>"

definition fallbackContent :: jsstring where
  "fallbackContent =
     js ''- Reflect your objective in one sentence to confirm I understood it correctly.'' @ nl @
     js ''- Identify one blocker or variable that worries you.'' @ nl @
     js ''- Ask for a concrete artefact: plan, outline, script, calculation, or critique.''"

text \<open>
  The body of the \<open>switch\<close>: the content of the reply and the step pushed with it.
\<close>

definition respond :: "env \<Rightarrow> Intent \<Rightarrow> jsstring \<Rightarrow> AgentMessage list \<Rightarrow> jsstring \<times> AgentStep" where
  "respond e intent userText messages =
     (case intent of
        Math \<Rightarrow>
          (calculateExpression e userText,
           \<lparr>title = js ''Tool'',
            step_content = js ''Evaluated arithmetic expression using the safe math parser.''\<rparr>)
      | Plan \<Rightarrow>
          (buildPlan userText,
           \<lparr>title = js ''Method'',
            step_content =
              js ''Expanded request into a structured plan with five sequenced actions.''\<rparr>)
      | Brainstorm \<Rightarrow>
          (brainstormIdeas userText,
           \<lparr>title = js ''Method'',
            step_content =
              js ''Generated four contrasting idea angles to encourage divergent thinking.''\<rparr>)
      | Summarize \<Rightarrow>
          (summarizeConversation messages,
           \<lparr>title = js ''Method'',
            step_content =
              js ''Compressed the last exchanges into a concise bullet-point recap.''\<rparr>)
      | Prioritize \<Rightarrow>
          (prioritiseTasks userText,
           \<lparr>title = js ''Method'',
            step_content =
              js ''Ranked supplied tasks based on urgency and impact heuristics to highlight what to do first.''\<rparr>)
      | Insight \<Rightarrow>
          (case matchKnowledge userText of
             Some insight \<Rightarrow>
               if insight \<noteq> [] then
                 (insight,
                  \<lparr>title = js ''Knowledge'',
                   step_content =
                     js ''Matched the topic against the curated playbook and surfaced relevant tactics.''\<rparr>)
               else
                 (fallbackContent,
                  \<lparr>title = js ''Fallback'',
                   step_content =
                     js ''No direct tool matched, so I offered a structured prompt to refine the conversation.''\<rparr>)
           | None \<Rightarrow>
               (fallbackContent,
                \<lparr>title = js ''Fallback'',
                 step_content =
                   js ''No direct tool matched, so I offered a structured prompt to refine the conversation.''\<rparr>)))"

text \<open>
  \<open>runAgent\<close> is an \<open>async\<close> function: its promise is rejected (\<open>Inl\<close>) when the body
  throws and fulfilled (\<open>Inr\<close>) with the reply otherwise.
\<close>

definition runAgent :: "env \<Rightarrow> AgentMessage list \<Rightarrow> error + AgentReply" where
  "runAgent e messages =
     (case find (\<lambda>message. msg_role message = User) (rev messages) of
        None \<Rightarrow> Inr idleReply
      | Some last' \<Rightarrow>
          (let userText = trim (msg_content last');
               intent = classifyIntent userText;
               step1 = \<lparr>title = js ''Intent Detection'',
                        step_content = js ''Input suggests a **'' @ intentName intent @
                                       js ''** style response.''\<rparr>;
               (content', step2) = respond e intent userText messages;
               suggestions' = followUpSuggestions intent;
               step3 = \<lparr>title = js ''Next Move'',
                        step_content = js ''Suggested follow-up paths to continue the session.''\<rparr>
           in Inr \<lparr>role = Assistant, content = content', steps = [step1, step2, step3],
                   suggestions = suggestions'\<rparr>))"

section \<open>The dispatcher on unvalidated values\<close>

text \<open>
  The route hands the parsed JSON to \<open>runAgent\<close> behind a cast
  (\<open>as AgentMessage[]\<close>), which checks nothing at run time: the elements of the
  array can be any JSON value.  This section is \<open>runAgent\<close> as it runs on such
  values, with the \<open>TypeError\<close> of every property read and method call it makes.
\<close>

datatype json =
    JNull
  | JBool bool
  | JNum real
  | JStr jsstring
  | JArr "json list"
  | JObj "(jsstring \<times> json) list"










section \<open>The route \<open>POST /api/chat\<close>\<close>

text \<open>
  \<open>request.json()\<close> throws on a body that is not JSON and returns the parsed
  value otherwise.  \<open>body?.messages\<close> is \<open>undefined\<close> for the body \<open>null\<close>,
  and \<open>?? []\<close> puts the empty array for \<open>undefined\<close> and \<open>null\<close>.  Whatever is
  thrown inside the \<open>try\<close> block ends in the response 500.
\<close>

datatype responseBody = ErrorBody jsstring | ReplyBody AgentReply

record response =
  status :: nat
  body :: responseBody


section \<open>Notions of the specification\<close>

text \<open>
  The arithmetic operator characters, and the characters the classifier's pattern
  allows between two digits: digits, operators, parentheses, the dot and white space.
\<close>

definition isOperator :: "nat \<Rightarrow> bool" where
  "isOperator c = (c \<in> set (js ''+-*/%^''))"

definition isExprChar :: "nat \<Rightarrow> bool" where
  "isExprChar c = (isDigit c \<or> c \<in> set (js ''+-*/%^().'') \<or> isSpace c)"

text \<open>
  The sanitized expression: the input without the characters that are neither a digit,
  one of \<open>+ - * / % ^ ( ) .\<close>, nor white space.  And the text returned for a
  finite result.
\<close>

definition sanitize :: "jsstring \<Rightarrow> jsstring" where
  "sanitize input = filter isExprChar input"

definition formatResult :: "env \<Rightarrow> jsstring \<Rightarrow> real \<Rightarrow> jsstring" where
  "formatResult e expression result =
     js ''The expression '' @ trim expression @ js '' evaluates to **'' @
     (if \<bar>result\<bar> \<ge> 1000 then toLocaleString4 e result else toPrecision8 e result) @ js ''**.''"

text \<open>
  The separators of a task list (newline, comma, semicolon) and the pieces of a text
  between them.
\<close>

definition isSeparator :: "nat \<Rightarrow> bool" where
  "isSeparator c = (c = 10 \<or> c = 44 \<or> c = 59)"

fun splitOn :: "(nat \<Rightarrow> bool) \<Rightarrow> jsstring \<Rightarrow> jsstring list" where
  "splitOn P [] = [Nil]"
| "splitOn P (c # cs) =
     (if P c then [] # splitOn P cs
      else (case splitOn P cs of [] \<Rightarrow> [c # Nil] | p # ps \<Rightarrow> (c # p) # ps))"

definition candidateTasks :: "jsstring \<Rightarrow> jsstring list" where
  "candidateTasks input = filter (\<lambda>t. length t > 4) (map trim (splitOn isSeparator input))"

text \<open>
  A task mentions a keyword when the keyword occurs in it as a contiguous piece,
  letter case ignored.  The urgency and the impact of a task by its keywords.
\<close>

definition mentions :: "string \<Rightarrow> jsstring \<Rightarrow> bool" where
  "mentions kw t = sublist (map (canon True) (js kw)) (map (canon True) t)"

definition specUrgency :: "jsstring \<Rightarrow> nat" where
  "specUrgency t =
     (if list_ex (\<lambda>kw. mentions kw t) [''today'', ''urgent'', ''now'', ''soon'', ''asap'']
      then 3 else 1)"

definition specImpact :: "jsstring \<Rightarrow> nat" where
  "specImpact t =
     (if list_ex (\<lambda>kw. mentions kw t)
           [''launch'', ''client'', ''revenue'', ''milestone'', ''deadline''] then 3
      else if list_ex (\<lambda>kw. mentions kw t) [''review'', ''prep'', ''draft''] then 2
      else 1)"

text \<open>
  The order of the ranking: a higher score first, and among equal scores the task
  that came earlier in the input.
\<close>

definition rankedBefore :: "RankedTask \<Rightarrow> RankedTask \<Rightarrow> bool" where
  "rankedBefore a b = (score b < score a \<or> (score a = score b \<and> index a < index b))"

text \<open>The same order read from the comparator: \<open>compareRanked a b \<le> 0\<close>.\<close>

definition rankedLe :: "RankedTask \<Rightarrow> RankedTask \<Rightarrow> bool" where
  "rankedLe a b = (score b < score a \<or> (score a = score b \<and> index a \<le> index b))"

text \<open>
  The messages a summary shows: the messages among the last six of the history that
  are not system messages.
\<close>

definition shown :: "AgentMessage list \<Rightarrow> AgentMessage list" where
  "shown history = filter (\<lambda>m. msg_role m \<noteq> System) (drop (length history - 6) history)"

text \<open>
  The content of the reply with which the dispatcher's promise is fulfilled; there is
  none when the promise is rejected.
\<close>

definition replyContent :: "error + AgentReply \<Rightarrow> jsstring option" where
  "replyContent outcome = (case outcome of Inl thrown \<Rightarrow> None | Inr reply \<Rightarrow> Some (content reply))"







text \<open>
  What a class matches as a predicate on code units, and the ways a greedy run of
  such code units can end: after the longest run first, then one shorter each time.
\<close>

definition classPred :: "bool \<Rightarrow> bool \<Rightarrow> (nat \<times> nat) list \<Rightarrow> nat \<Rightarrow> bool" where
  "classPred ic neg rs c = (inClass ic rs c \<noteq> neg)"

fun suffixesWhile :: "(nat \<Rightarrow> bool) \<Rightarrow> jsstring \<Rightarrow> jsstring list" where
  "suffixesWhile P [] = [Nil]"
| "suffixesWhile P (c # cs) = (if P c then suffixesWhile P cs @ [c # cs] else [c # cs])"

section \<open>Sample inputs\<close>

text \<open>
  The behaviour of the library's parser at three expressions, for concrete runs of the
  model: \<open>2+2\<close> is 4, \<open>2000*2\<close> is 4000, a division by zero is JavaScript's
  \<open>Infinity\<close>; everything else is taken as a parse error here, as a dangling
  operator is.  The two renderings are given at these results: 4000 is "4,000" in an
  English locale, 4 is "4".
\<close>

definition sampleEnv :: env where
  "sampleEnv =
     \<lparr>evaluate = (\<lambda>s. if s = js ''2+2'' then Inr (JNumber (Fin 4))
                        else if s = js ''2000*2'' then Inr (JNumber (Fin 4000))
                        else if s = js ''1/0'' then Inr (JNumber PosInfinity)
                        else Inl ParseError),
      toLocaleString4 = (\<lambda>x. if x = 4000 then js ''4,000'' else js ''?''),
      toPrecision8 = (\<lambda>x. if x = 4 then js ''4'' else js ''?'')\<rparr>"

text \<open>A history of six messages of the user and the assistant, then a system message.\<close>

definition sampleHistory :: "AgentMessage list" where
  "sampleHistory =
     [\<lparr>msg_role = User, msg_content = js ''a''\<rparr>,
      \<lparr>msg_role = Assistant, msg_content = js ''b''\<rparr>,
      \<lparr>msg_role = User, msg_content = js ''c''\<rparr>,
      \<lparr>msg_role = Assistant, msg_content = js ''d''\<rparr>,
      \<lparr>msg_role = User, msg_content = js ''e''\<rparr>,
      \<lparr>msg_role = Assistant, msg_content = js ''f''\<rparr>,
      \<lparr>msg_role = System, msg_content = js ''s''\<rparr>]"

section \<open>Facts about the matcher\<close>

lemma js_eq_Nil: "js s = [] \<longleftrightarrow> s = []"
  by (simp add: js_def)

lemma rmatch_Star_Cls:
  "rmatch ic (Star (Cls neg rs)) s = suffixesWhile (classPred ic neg rs) s"
  by (induction s) (simp_all add: classPred_def rmatch.simps)

lemma rmatch_Plus_Cls:
  "rmatch ic (Plus (Cls neg rs)) s =
     (case s of [] \<Rightarrow> [] | c # cs \<Rightarrow>
        if classPred ic neg rs c then suffixesWhile (classPred ic neg rs) cs else [])"
  by (cases s) (simp_all add: rmatch_Star_Cls classPred_def rmatch.simps(4) rmatch.simps(8))

lemma set_suffixesWhile:
  "set (suffixesWhile P s) = {drop k s | k. k \<le> length (takeWhile P s)}"
proof (induction s)
  case Nil
  then show ?case by simp
next
  case (Cons c cs)
  show ?case
  proof (cases "P c")
    case False
    then show ?thesis by simp
  next
    case True
    have "{drop k (c # cs) | k. k \<le> Suc (length (takeWhile P cs))} =
          insert (c # cs) {drop k cs | k. k \<le> length (takeWhile P cs)}"
      (is "?L = ?R")
    proof
      show "?L \<subseteq> ?R"
      proof
        fix x assume "x \<in> ?L"
        then obtain k where k: "x = drop k (c # cs)" "k \<le> Suc (length (takeWhile P cs))" by blast
        show "x \<in> ?R"
        proof (cases k)
          case 0
          with k show ?thesis by simp
        next
          case (Suc j)
          with k have "x = drop j cs" "j \<le> length (takeWhile P cs)" by simp_all
          then show ?thesis by blast
        qed
      qed
      show "?R \<subseteq> ?L"
      proof
        fix x assume "x \<in> ?R"
        then consider "x = c # cs" | k where "x = drop k cs" "k \<le> length (takeWhile P cs)" by blast
        then show "x \<in> ?L"
        proof cases
          case 1
          then have "x = drop 0 (c # cs)" by simp
          then show ?thesis by blast
        next
          case 2
          then have "x = drop (Suc k) (c # cs)" "Suc k \<le> Suc (length (takeWhile P cs))" by simp_all
          then show ?thesis by blast
        qed
      qed
    qed
    with True Cons show ?thesis by simp
  qed
qed

lemma suffixesWhile_nonempty: "suffixesWhile P s \<noteq> []"
  by (cases s) simp_all

lemma hd_suffixesWhile: "hd (suffixesWhile P s) = dropWhile P s"
  by (induction s) (simp_all add: hd_append suffixesWhile_nonempty)

lemma rtest_iff: "rtest ic r s \<longleftrightarrow> (\<exists>pre suf. s = pre @ suf \<and> rmatch ic r suf \<noteq> [])"
proof (induction s)
  case Nil
  then show ?case by simp
next
  case (Cons c cs)
  show ?case
  proof
    assume "rtest ic r (c # cs)"
    then consider "rmatch ic r (c # cs) \<noteq> []" | "rtest ic r cs" by auto
    then show "\<exists>pre suf. c # cs = pre @ suf \<and> rmatch ic r suf \<noteq> []"
    proof cases
      case 1
      then have "c # cs = [] @ (c # cs) \<and> rmatch ic r (c # cs) \<noteq> []" by simp
      then show ?thesis by blast
    next
      case 2
      with Cons obtain pre suf where "cs = pre @ suf" "rmatch ic r suf \<noteq> []" by blast
      then have "c # cs = (c # pre) @ suf \<and> rmatch ic r suf \<noteq> []" by simp
      then show ?thesis by blast
    qed
  next
    assume "\<exists>pre suf. c # cs = pre @ suf \<and> rmatch ic r suf \<noteq> []"
    then obtain pre suf where ps: "c # cs = pre @ suf" "rmatch ic r suf \<noteq> []" by blast
    show "rtest ic r (c # cs)"
    proof (cases pre)
      case Nil
      with ps have "rmatch ic r (c # cs) \<noteq> []" by simp
      then show ?thesis by simp
    next
      case (Cons p pre')
      with ps have "cs = pre' @ suf" by simp
      with ps Cons.IH show ?thesis by auto
    qed
  qed
qed

lemma inRanges_append: "inRanges (xs @ ys) c = (inRanges xs c \<or> inRanges ys c)"
  by (simp add: inRanges_def)

lemma inRanges_chars: "inRanges (chars w) c = (c \<in> set (js w))"
  by (induction w) (auto simp: inRanges_def chars_def js_def)

lemma inRanges_digits: "inRanges [(48, 57)] c = isDigit c"
  by (simp add: inRanges_def isDigit_def)

lemma inRanges_exprClass: "inRanges exprClass c = isExprChar c"
  unfolding exprClass_def isExprChar_def isSpace_def inRanges_append inRanges_chars inRanges_digits
  by (rule refl)

lemma classPred_exprClass: "classPred False False exprClass = isExprChar"
  by (rule ext) (simp add: classPred_def inClass_def inRanges_exprClass)

lemma rmatch_Seq_nonempty:
  "rmatch ic (Seq r1 r2) s \<noteq> [] \<longleftrightarrow> (\<exists>x\<in>set (rmatch ic r1 s). rmatch ic r2 x \<noteq> [])"
  by (auto simp: rmatch.simps(5))

lemma rmatch_digit_Cons:
  "rmatch False (Cls False [(48, 57)]) (d # post) = (if isDigit d then [post] else [])"
  by (simp add: inClass_def inRanges_digits rmatch.simps(4))

lemma rmatch_digit:
  "rmatch False (Cls False [(48, 57)]) x \<noteq> [] \<longleftrightarrow> (\<exists>d post. x = d # post \<and> isDigit d)"
  by (cases x) (simp_all add: inClass_def inRanges_digits rmatch.simps(4))

lemma drop_takeWhile_iff:
  "(\<exists>k\<le>length (takeWhile P xs). drop k xs = ys) \<longleftrightarrow> (\<exists>mid. xs = mid @ ys \<and> (\<forall>c\<in>set mid. P c))"
proof
  assume "\<exists>k\<le>length (takeWhile P xs). drop k xs = ys"
  then obtain k where k: "k \<le> length (takeWhile P xs)" "drop k xs = ys" by blast
  have "take k xs = take k (takeWhile P xs @ dropWhile P xs)" by simp
  also have "\<dots> = take k (takeWhile P xs)" using k(1) by (simp del: takeWhile_dropWhile_id)
  finally have "set (take k xs) \<subseteq> set (takeWhile P xs)" by (simp add: set_take_subset)
  then have "\<forall>c\<in>set (take k xs). P c" by (auto dest: set_takeWhileD)
  moreover have "xs = take k xs @ ys" using k(2) by (metis append_take_drop_id)
  ultimately show "\<exists>mid. xs = mid @ ys \<and> (\<forall>c\<in>set mid. P c)" by blast
next
  assume "\<exists>mid. xs = mid @ ys \<and> (\<forall>c\<in>set mid. P c)"
  then obtain mid where m: "xs = mid @ ys" "\<forall>c\<in>set mid. P c" by blast
  then have "takeWhile P xs = mid @ takeWhile P ys" by simp
  then have "length mid \<le> length (takeWhile P xs)" by simp
  moreover have "drop (length mid) xs = ys" using m by simp
  ultimately show "\<exists>k\<le>length (takeWhile P xs). drop k xs = ys" by blast
qed

section \<open>The intent classifier\<close>

lemma mathRx_step1:
  "rmatch False mathRx (d1 # rest) =
     (if isDigit d1 then rmatch False (Seq (Plus (Cls False exprClass)) (Cls False [(48, 57)])) rest else [])"
  unfolding mathRx_def by (simp add: rmatch.simps(5) rmatch_digit_Cons)

lemma mathRx_step2:
  "rmatch False (Seq (Plus (Cls False exprClass)) (Cls False [(48, 57)])) (m # rest') \<noteq> [] \<longleftrightarrow>
   (isExprChar m \<and> (\<exists>x\<in>set (suffixesWhile isExprChar rest'). rmatch False (Cls False [(48, 57)]) x \<noteq> []))"
  unfolding rmatch_Seq_nonempty rmatch_Plus_Cls classPred_exprClass by auto

lemma mathRx_step0: "rmatch False mathRx [] = []"
  unfolding mathRx_def by (simp add: rmatch.simps(5) rmatch.simps(4))

lemma mathRx_step0': "rmatch False (Seq (Plus (Cls False exprClass)) (Cls False [(48, 57)])) [] = []"
  by (simp add: rmatch.simps(5) rmatch_Plus_Cls)


lemma rmatch_mathRx:
  "rmatch False mathRx suf \<noteq> [] \<longleftrightarrow>
   (\<exists>d1 mid d2 post. suf = d1 # mid @ d2 # post \<and> isDigit d1 \<and> isDigit d2 \<and>
       mid \<noteq> [] \<and> (\<forall>c\<in>set mid. isExprChar c))"
  (is "?L \<longleftrightarrow> ?R")
proof (cases suf)
  case Nil
  then show ?thesis by (simp add: mathRx_step0)
next
  case (Cons d1 rest)
  note suf = Cons
  show ?thesis
  proof (cases "isDigit d1")
    case False
    then show ?thesis using suf by (simp add: mathRx_step1)
  next
    case d1: True
    show ?thesis
    proof (cases rest)
      case Nil
      then show ?thesis using suf d1 by (simp add: mathRx_step1 mathRx_step0')
    next
      case (Cons m rest')
      have "?L \<longleftrightarrow> (isExprChar m \<and>
                 (\<exists>x\<in>set (suffixesWhile isExprChar rest'). rmatch False (Cls False [(48, 57)]) x \<noteq> []))"
        using suf Cons d1 by (simp add: mathRx_step1 mathRx_step2)
      also have "\<dots> \<longleftrightarrow> (isExprChar m \<and>
                 (\<exists>x\<in>set (suffixesWhile isExprChar rest'). \<exists>d post. x = d # post \<and> isDigit d))"
        unfolding rmatch_digit by (rule refl)
      also have "\<dots> \<longleftrightarrow> (isExprChar m \<and>
                 (\<exists>d post. isDigit d \<and> (\<exists>k\<le>length (takeWhile isExprChar rest'). drop k rest' = d # post)))"
        unfolding set_suffixesWhile by blast
      also have "\<dots> \<longleftrightarrow> (isExprChar m \<and>
                 (\<exists>d post. isDigit d \<and> (\<exists>mid. rest' = mid @ d # post \<and> (\<forall>c\<in>set mid. isExprChar c))))"
        unfolding drop_takeWhile_iff by (rule refl)
      also have "\<dots> \<longleftrightarrow> ?R"
      proof
        assume "isExprChar m \<and>
                 (\<exists>d post. isDigit d \<and> (\<exists>mid. rest' = mid @ d # post \<and> (\<forall>c\<in>set mid. isExprChar c)))"
        then obtain d post mid where h: "isExprChar m" "isDigit d" "rest' = mid @ d # post"
          "\<forall>c\<in>set mid. isExprChar c" by blast
        then have "suf = d1 # (m # mid) @ d # post \<and> isDigit d1 \<and> isDigit d \<and> m # mid \<noteq> [] \<and>
                   (\<forall>c\<in>set (m # mid). isExprChar c)"
          using suf Cons d1 by simp
        then show ?R by blast
      next
        assume ?R
        then obtain e1 mid d2 post where h: "suf = e1 # mid @ d2 # post" "isDigit d2" "mid \<noteq> []"
          "\<forall>c\<in>set mid. isExprChar c" by blast
        then obtain m' mid' where mid: "mid = m' # mid'" by (cases mid) auto
        with h suf Cons have "m = m'" "rest' = mid' @ d2 # post" by simp_all
        with h mid show "isExprChar m \<and>
                 (\<exists>d post. isDigit d \<and> (\<exists>mid. rest' = mid @ d # post \<and> (\<forall>c\<in>set mid. isExprChar c)))"
          by auto
      qed
      finally show ?thesis .
    qed
  qed
qed

lemma classifyIntent_Math_iff:
  "classifyIntent s = Math \<longleftrightarrow>
   (\<exists>pre d1 mid d2 post. s = pre @ d1 # mid @ d2 # post \<and> isDigit d1 \<and> isDigit d2 \<and>
       mid \<noteq> [] \<and> (\<forall>c\<in>set mid. isExprChar c))"
proof -
  have "classifyIntent s = Math \<longleftrightarrow> rtest False mathRx s"
    by (simp add: classifyIntent_def)
  also have "\<dots> \<longleftrightarrow> (\<exists>pre suf. s = pre @ suf \<and> (\<exists>d1 mid d2 post. suf = d1 # mid @ d2 # post \<and> isDigit d1 \<and> isDigit d2 \<and>
       mid \<noteq> [] \<and> (\<forall>c\<in>set mid. isExprChar c)))"
    unfolding rtest_iff rmatch_mathRx by (rule refl)
  also have "\<dots> \<longleftrightarrow> (\<exists>pre d1 mid d2 post. s = pre @ d1 # mid @ d2 # post \<and> isDigit d1 \<and> isDigit d2 \<and>
       mid \<noteq> [] \<and> (\<forall>c\<in>set mid. isExprChar c))"
    by blast
  finally show ?thesis .
qed

text \<open>
  Claim C1, as amended.  An input without a digit is never classified \<open>math\<close>.  The
  classifier returns \<open>math\<close> exactly when the text contains a digit, then one or
  more characters each of which is a digit, one of \<open>+ - * / % ^ ( ) .\<close> or white
  space, then a digit.
\<close>

theorem classifyIntent_math:
  "(\<not> list_ex isDigit s \<longrightarrow> classifyIntent s \<noteq> Math) \<and>
   (classifyIntent s = Math \<longleftrightarrow>
      (\<exists>pre d1 mid d2 post. s = pre @ d1 # mid @ d2 # post \<and> isDigit d1 \<and> isDigit d2 \<and>
          mid \<noteq> [] \<and> (\<forall>c\<in>set mid. isExprChar c)))"
proof
  show "\<not> list_ex isDigit s \<longrightarrow> classifyIntent s \<noteq> Math"
  proof
    assume nd: "\<not> list_ex isDigit s"
    show "classifyIntent s \<noteq> Math"
    proof
      assume "classifyIntent s = Math"
      then obtain pre d1 mid d2 post where "s = pre @ d1 # mid @ d2 # post" "isDigit d1"
        unfolding classifyIntent_Math_iff by blast
      then have "list_ex isDigit s" by (auto simp: list_ex_iff)
      with nd show False by contradiction
    qed
  qed
  show "classifyIntent s = Math \<longleftrightarrow>
      (\<exists>pre d1 mid d2 post. s = pre @ d1 # mid @ d2 # post \<and> isDigit d1 \<and> isDigit d2 \<and>
          mid \<noteq> [] \<and> (\<forall>c\<in>set mid. isExprChar c))"
    by (rule classifyIntent_Math_iff)
qed

theorem classifyIntent_math_witness:
  "classifyIntent (js ''2+2'') = Math \<and> classifyIntent (js ''hello'') \<noteq> Math"
proof -
  have "js ''2+2'' = [] @ 50 # [43] @ 50 # [] \<and> isDigit 50 \<and> isDigit 50 \<and> [43] \<noteq> [] \<and>
        (\<forall>c\<in>set [43]. isExprChar c)"
    by (simp add: js_def isDigit_def isExprChar_def)
  then have "\<exists>pre d1 mid d2 post. js ''2+2'' = pre @ d1 # mid @ d2 # post \<and> isDigit d1 \<and>
      isDigit d2 \<and> mid \<noteq> [] \<and> (\<forall>c\<in>set mid. isExprChar c)"
    by blast
  moreover have "\<not> list_ex isDigit (js ''hello'')"
    by (simp add: js_def isDigit_def)
  ultimately show ?thesis
    using classifyIntent_math [of "js ''2+2''"] classifyIntent_math [of "js ''hello''"]
    by blast
qed

theorem classifyIntent_digits_only_counterexample:
  "list_ex isDigit (js ''123'') \<and> \<not> list_ex isOperator (js ''123'') \<and>
   classifyIntent (js ''123'') = Math"
proof -
  have "js ''123'' = [] @ 49 # [50] @ 51 # [] \<and> isDigit 49 \<and> isDigit 51 \<and> [50] \<noteq> [] \<and>
        (\<forall>c\<in>set [50]. isExprChar c)"
    by (simp add: js_def isDigit_def isExprChar_def)
  then have "\<exists>pre d1 mid d2 post. js ''123'' = pre @ d1 # mid @ d2 # post \<and> isDigit d1 \<and>
      isDigit d2 \<and> mid \<noteq> [] \<and> (\<forall>c\<in>set mid. isExprChar c)"
    by blast
  then have "classifyIntent (js ''123'') = Math"
    unfolding classifyIntent_Math_iff .
  moreover have "list_ex isDigit (js ''123'') \<and> \<not> list_ex isOperator (js ''123'')"
    by (simp add: js_def isDigit_def isOperator_def)
  ultimately show ?thesis by blast
qed

section \<open>The expression evaluator\<close>

lemma rreplace_Cls_empty:
  "rreplace False (Cls neg rs) [] s = filter (\<lambda>c. \<not> classPred False neg rs c) s"
proof (induction s)
  case Nil
  show ?case by (subst rreplace.simps) (simp add: rmatch.simps(4))
next
  case (Cons c cs)
  show ?case by (subst rreplace.simps) (simp add: rmatch.simps(4) classPred_def Cons)
qed

lemma rreplace_Lit_empty:
  "rreplace False (Lit a) [] s = filter (\<lambda>c. c \<noteq> a) s"
proof (induction s)
  case Nil
  show ?case by (subst rreplace.simps) (simp add: rmatch.simps(2))
next
  case (Cons c cs)
  show ?case by (subst rreplace.simps) (simp add: rmatch.simps(2) canon_def Cons)
qed

lemma inRanges_cleanClass: "inRanges cleanClass c = (isExprChar c \<or> c = 44)"
proof -
  have "inRanges cleanClass c = (isDigit c \<or> c \<in> set (js ''+-*/%^().,'') \<or> isSpace c)"
    unfolding cleanClass_def isSpace_def inRanges_append inRanges_chars inRanges_digits
    by (rule refl)
  then show ?thesis by (auto simp: isExprChar_def js_def)
qed

lemma not_isExprChar_comma: "\<not> isExprChar 44"
  by (simp add: isExprChar_def isDigit_def js_def isSpace_def inRanges_def wsRanges_def)

lemma candidate_eq:
  "rreplace False (Lit 44) [] (rreplace False (Cls True cleanClass) [] input) = sanitize input"
proof -
  have "(\<lambda>c. \<not> classPred False True cleanClass c \<and> c \<noteq> 44) = isExprChar"
    using not_isExprChar_comma
    by (auto simp: classPred_def inClass_def inRanges_cleanClass fun_eq_iff)
  then show ?thesis
    by (simp add: rreplace_Cls_empty rreplace_Lit_empty sanitize_def)
qed

lemma rtest_digit: "rtest False (Cls False [(48, 57)]) s \<longleftrightarrow> list_ex isDigit s"
proof -
  have "rtest False (Cls False [(48, 57)]) s \<longleftrightarrow> (\<exists>pre d post. s = pre @ d # post \<and> isDigit d)"
    unfolding rtest_iff rmatch_digit by blast
  also have "\<dots> \<longleftrightarrow> (\<exists>d\<in>set s. isDigit d)"
    by (metis in_set_conv_decomp)
  finally show ?thesis by (simp add: list_ex_iff)
qed

lemma isDigit_not_isSpace: "isDigit c \<Longrightarrow> \<not> isSpace c"
  by (auto simp: isDigit_def isSpace_def inRanges_def wsRanges_def)

lemma isDigit_isExprChar: "isDigit c \<Longrightarrow> isExprChar c"
  by (simp add: isExprChar_def)

lemma trim_Nil_iff: "trim s = [] \<longleftrightarrow> (\<forall>c\<in>set s. isSpace c)"
proof (cases "dropWhile isSpace s = []")
  case True
  have "trim s = []" unfolding trim_def True by simp
  moreover have "\<forall>c\<in>set s. isSpace c" using True by simp
  ultimately show ?thesis by blast
next
  case False
  then have "hd (dropWhile isSpace s) \<in> set (dropWhile isSpace s)"
    and "\<not> isSpace (hd (dropWhile isSpace s))"
    by (simp_all add: hd_dropWhile)
  then have "\<not> (\<forall>x\<in>set (rev (dropWhile isSpace s)). isSpace x)" by auto
  then have "dropWhile isSpace (rev (dropWhile isSpace s)) \<noteq> []"
    unfolding dropWhile_eq_Nil_conv .
  then have "trim s \<noteq> []" by (simp add: trim_def)
  moreover have "\<not> (\<forall>c\<in>set s. isSpace c)"
    using False unfolding dropWhile_eq_Nil_conv .
  ultimately show ?thesis by blast
qed

lemma list_ex_digit_sanitize: "list_ex isDigit (sanitize input) = list_ex isDigit input"
  by (auto simp: sanitize_def list_ex_iff isDigit_isExprChar)

lemma cleanExpression_eq:
  "cleanExpression input = (if list_ex isDigit input then Some (sanitize input) else None)"
proof (cases "list_ex isDigit input")
  case True
  then have d: "list_ex isDigit (sanitize input)" by (simp add: list_ex_digit_sanitize)
  then have "trim (sanitize input) \<noteq> []"
    by (auto simp: trim_Nil_iff list_ex_iff dest: isDigit_not_isSpace)
  with True d show ?thesis
    by (simp add: cleanExpression_def candidate_eq rtest_digit Let_def)
next
  case False
  then show ?thesis
    by (simp add: cleanExpression_def candidate_eq rtest_digit list_ex_digit_sanitize Let_def)
qed

lemma sanitize_nonempty: "list_ex isDigit input \<Longrightarrow> sanitize input \<noteq> []"
  using list_ex_digit_sanitize [of input] by (cases "sanitize input") auto

lemma calculateExpression_eq:
  "calculateExpression e input =
     (if \<not> list_ex isDigit input then msgNoExpression
      else case evaluate e (sanitize input) of
             Inl err \<Rightarrow> msgMalformed
           | Inr (JNumber (Fin result)) \<Rightarrow> formatResult e (sanitize input) result
           | Inr other \<Rightarrow> msgNonNumeric)"
  by (auto simp: calculateExpression_def cleanExpression_eq sanitize_nonempty formatResult_def Let_def
      split: sum.splits jsvalue.splits jsnumber.splits)

lemma formatResult_not_message:
  "formatResult e x r \<noteq> msgNoExpression" "formatResult e x r \<noteq> msgMalformed"
  "formatResult e x r \<noteq> msgNonNumeric"
  by (simp_all add: formatResult_def msgNoExpression_def msgMalformed_def msgNonNumeric_def js_def)

lemma messages_not_formatted:
  "\<not> prefix (js ''The expression '') msgNoExpression"
  "\<not> prefix (js ''The expression '') msgMalformed"
  "\<not> prefix (js ''The expression '') msgNonNumeric"
  by (simp_all add: msgNoExpression_def msgMalformed_def msgNonNumeric_def js_def)

lemma formatResult_prefix: "prefix (js ''The expression '') (formatResult e x r)"
  by (simp add: formatResult_def)

lemma messages_nonempty:
  "msgNoExpression \<noteq> []" "msgMalformed \<noteq> []" "msgNonNumeric \<noteq> []" "formatResult e x r \<noteq> []"
  by (simp_all add: formatResult_def msgNoExpression_def msgMalformed_def msgNonNumeric_def js_def)

lemma calculateExpression_nonempty: "calculateExpression e input \<noteq> []"
  by (simp add: calculateExpression_eq messages_nonempty split: sum.splits jsvalue.splits jsnumber.splits)

lemma sanitize_samples:
  "sanitize (js ''2+2'') = js ''2+2''" "sanitize (js ''1/0'') = js ''1/0''"
  "sanitize (js ''hello'') = []" "sanitize (js ''what is 2+?'') = js ''  2+''"
  "sanitize (js ''2000*2'') = js ''2000*2''"
  by (simp_all add: sanitize_def js_def isExprChar_def isDigit_def isSpace_def inRanges_def
      wsRanges_def)

lemma trim_samples: "trim (js ''2+2'') = js ''2+2''" "trim (js ''2000*2'') = js ''2000*2''"
  by (simp_all add: trim_def js_def isSpace_def inRanges_def wsRanges_def)

text \<open>
  Claim C7, as amended.  The sanitized string is the input without the characters
  other than digits, \<open>+ - * / % ^ ( ) .\<close> and white space.  The evaluator returns
  one of its three explanatory messages exactly when the sanitized string is empty
  or has no digit, the parser throws, or the parser's result is not a finite number;
  on a finite number it returns "The expression ... evaluates to **...**." with the
  locale rendering (at most four decimals) from 1000 on and the rendering to eight
  significant digits below.  It never throws.
\<close>

theorem calculateExpression_outcomes:
  "cleanExpression input =
     (if list_ex isDigit (sanitize input) then Some (sanitize input) else None) \<and>
   calculateExpression e input =
     (if sanitize input = [] \<or> \<not> list_ex isDigit (sanitize input) then msgNoExpression
      else case evaluate e (sanitize input) of
             Inl err \<Rightarrow> msgMalformed
           | Inr (JNumber (Fin result)) \<Rightarrow>
               js ''The expression '' @ trim (sanitize input) @ js '' evaluates to **'' @
               (if \<bar>result\<bar> \<ge> 1000 then toLocaleString4 e result else toPrecision8 e result) @
               js ''**.''
           | Inr other \<Rightarrow> msgNonNumeric) \<and>
   (calculateExpression e input \<in> {msgNoExpression, msgMalformed, msgNonNumeric} \<longleftrightarrow>
      sanitize input = [] \<or> \<not> list_ex isDigit (sanitize input) \<or>
      (\<exists>err. evaluate e (sanitize input) = Inl err) \<or>
      (\<exists>v. evaluate e (sanitize input) = Inr v \<and> (\<forall>x. v \<noteq> JNumber (Fin x))))"
proof (intro conjI)
  show "cleanExpression input =
     (if list_ex isDigit (sanitize input) then Some (sanitize input) else None)"
    by (simp add: cleanExpression_eq list_ex_digit_sanitize)
  have empty: "sanitize input = [] \<Longrightarrow> \<not> list_ex isDigit (sanitize input)"
    by simp
  show "calculateExpression e input =
     (if sanitize input = [] \<or> \<not> list_ex isDigit (sanitize input) then msgNoExpression
      else case evaluate e (sanitize input) of
             Inl err \<Rightarrow> msgMalformed
           | Inr (JNumber (Fin result)) \<Rightarrow>
               js ''The expression '' @ trim (sanitize input) @ js '' evaluates to **'' @
               (if \<bar>result\<bar> \<ge> 1000 then toLocaleString4 e result else toPrecision8 e result) @
               js ''**.''
           | Inr other \<Rightarrow> msgNonNumeric)"
    using empty sanitize_nonempty [of input]
    by (auto simp: calculateExpression_eq list_ex_digit_sanitize formatResult_def
        split: sum.splits jsvalue.splits jsnumber.splits)
  show "calculateExpression e input \<in> {msgNoExpression, msgMalformed, msgNonNumeric} \<longleftrightarrow>
      sanitize input = [] \<or> \<not> list_ex isDigit (sanitize input) \<or>
      (\<exists>err. evaluate e (sanitize input) = Inl err) \<or>
      (\<exists>v. evaluate e (sanitize input) = Inr v \<and> (\<forall>x. v \<noteq> JNumber (Fin x)))"
  proof (cases "list_ex isDigit (sanitize input)")
    case False
    then show ?thesis by (simp add: calculateExpression_eq list_ex_digit_sanitize)
  next
    case True
    then have ne: "sanitize input \<noteq> []" by auto
    show ?thesis
    proof (cases "evaluate e (sanitize input)")
      case (Inl err)
      with True show ?thesis by (simp add: calculateExpression_eq list_ex_digit_sanitize)
    next
      case (Inr v)
      show ?thesis
      proof (cases "\<exists>x. v = JNumber (Fin x)")
        case True
        then obtain x where "v = JNumber (Fin x)" by blast
        with Inr \<open>list_ex isDigit (sanitize input)\<close> ne show ?thesis
          by (simp add: calculateExpression_eq list_ex_digit_sanitize formatResult_not_message)
      next
        case False
        with Inr \<open>list_ex isDigit (sanitize input)\<close> show ?thesis
          by (auto simp: calculateExpression_eq list_ex_digit_sanitize
              split: jsvalue.splits jsnumber.splits)
      qed
    qed
  qed
qed

theorem calculateExpression_outcomes_witness:
  "calculateExpression sampleEnv (js ''2+2'') = js ''The expression 2+2 evaluates to **4**.'' \<and>
   calculateExpression sampleEnv (js ''2000*2'') =
     js ''The expression 2000*2 evaluates to **4,000**.'' \<and>
   calculateExpression sampleEnv (js ''hello'') = msgNoExpression \<and>
   calculateExpression sampleEnv (js ''what is 2+?'') = msgMalformed \<and>
   calculateExpression sampleEnv (js ''1/0'') = msgNonNumeric"
proof (intro conjI)
  have digits: "list_ex isDigit (js ''2+2'')" "list_ex isDigit (js ''2000*2'')"
    "list_ex isDigit (js ''  2+'')" "list_ex isDigit (js ''1/0'')"
    by (simp_all add: js_def isDigit_def)
  have ev: "evaluate sampleEnv (js ''2+2'') = Inr (JNumber (Fin 4))"
    "evaluate sampleEnv (js ''2000*2'') = Inr (JNumber (Fin 4000))"
    "evaluate sampleEnv (js ''  2+'') = Inl ParseError"
    "evaluate sampleEnv (js ''1/0'') = Inr (JNumber PosInfinity)"
    by (simp_all add: sampleEnv_def js_def)
  have fmt: "toPrecision8 sampleEnv 4 = js ''4''" "toLocaleString4 sampleEnv 4000 = js ''4,000''"
    by (simp_all add: sampleEnv_def)
  show "calculateExpression sampleEnv (js ''2+2'') = js ''The expression 2+2 evaluates to **4**.''"
    using calculateExpression_outcomes [of "js ''2+2''" sampleEnv, THEN conjunct2, THEN conjunct1]
    unfolding sanitize_samples trim_samples
    by (simp add: digits ev fmt) (simp add: js_def)
  show "calculateExpression sampleEnv (js ''2000*2'') =
     js ''The expression 2000*2 evaluates to **4,000**.''"
    using calculateExpression_outcomes [of "js ''2000*2''" sampleEnv, THEN conjunct2, THEN conjunct1]
    unfolding sanitize_samples trim_samples
    by (simp add: digits ev fmt) (simp add: js_def)
  show "calculateExpression sampleEnv (js ''hello'') = msgNoExpression"
    using calculateExpression_outcomes [of "js ''hello''" sampleEnv, THEN conjunct2, THEN conjunct1]
    unfolding sanitize_samples by simp
  show "calculateExpression sampleEnv (js ''what is 2+?'') = msgMalformed"
    using calculateExpression_outcomes [of "js ''what is 2+?''" sampleEnv, THEN conjunct2, THEN conjunct1]
    unfolding sanitize_samples
    by (simp add: digits ev js_eq_Nil)
  show "calculateExpression sampleEnv (js ''1/0'') = msgNonNumeric"
    using calculateExpression_outcomes [of "js ''1/0''" sampleEnv, THEN conjunct2, THEN conjunct1]
    unfolding sanitize_samples
    by (simp add: digits ev js_eq_Nil)
qed

theorem calculateExpression_infinity_counterexample:
  "cleanExpression (js ''1/0'') = Some (js ''1/0'') \<and> js ''1/0'' \<noteq> [] \<and>
   list_ex isDigit (js ''1/0'') \<and>
   evaluate sampleEnv (js ''1/0'') = Inr (JNumber PosInfinity) \<and>
   calculateExpression sampleEnv (js ''1/0'') = msgNonNumeric"
proof -
  have d: "list_ex isDigit (js ''1/0'')" by (simp add: js_def isDigit_def)
  have ev: "evaluate sampleEnv (js ''1/0'') = Inr (JNumber PosInfinity)"
    by (simp add: sampleEnv_def js_def)
  have "calculateExpression sampleEnv (js ''1/0'') = msgNonNumeric"
    using d ev by (simp add: calculateExpression_eq sanitize_samples)
  moreover have "cleanExpression (js ''1/0'') = Some (js ''1/0'')"
    using d by (simp add: cleanExpression_eq sanitize_samples)
  moreover have "js ''1/0'' \<noteq> []" by (simp add: js_def)
  ultimately show ?thesis using d ev by blast
qed

text \<open>
  Claim C10.  When the parser returns a value that is not a finite number (an
  infinity, NaN, or not a number at all), the evaluator returns the "non-numeric
  result" message; and its output has the form of a formatted result, beginning with
  "The expression ", only when the parser returned a finite number.
\<close>

theorem calculateExpression_non_finite:
  "(cleanExpression input = Some expression \<and> evaluate e expression = Inr v \<and>
      (\<forall>x. v \<noteq> JNumber (Fin x))
    \<longrightarrow> calculateExpression e input = msgNonNumeric) \<and>
   (prefix (js ''The expression '') (calculateExpression e input) \<longleftrightarrow>
      (\<exists>expression x. cleanExpression input = Some expression \<and>
          evaluate e expression = Inr (JNumber (Fin x))))"
proof
  show "cleanExpression input = Some expression \<and> evaluate e expression = Inr v \<and>
      (\<forall>x. v \<noteq> JNumber (Fin x))
    \<longrightarrow> calculateExpression e input = msgNonNumeric"
    by (auto simp: calculateExpression_eq cleanExpression_eq
        split: if_splits jsvalue.splits jsnumber.splits)
  show "prefix (js ''The expression '') (calculateExpression e input) \<longleftrightarrow>
      (\<exists>expression x. cleanExpression input = Some expression \<and>
          evaluate e expression = Inr (JNumber (Fin x)))"
  proof (cases "list_ex isDigit input")
    case False
    then show ?thesis
      by (simp add: calculateExpression_eq cleanExpression_eq messages_not_formatted)
  next
    case True
    show ?thesis
    proof (cases "evaluate e (sanitize input)")
      case (Inl err)
      with True show ?thesis
        by (simp add: calculateExpression_eq cleanExpression_eq messages_not_formatted)
    next
      case (Inr v)
      with True show ?thesis
        by (auto simp: calculateExpression_eq cleanExpression_eq messages_not_formatted
            formatResult_prefix split: jsvalue.splits jsnumber.splits)
    qed
  qed
qed

theorem calculateExpression_non_finite_witness:
  "calculateExpression sampleEnv (js ''1/0'') = msgNonNumeric \<and>
   prefix (js ''The expression '') (calculateExpression sampleEnv (js ''2+2''))"
proof -
  have "cleanExpression (js ''1/0'') = Some (js ''1/0'')"
    by (simp add: cleanExpression_eq sanitize_samples) (simp add: js_def isDigit_def)
  moreover have "evaluate sampleEnv (js ''1/0'') = Inr (JNumber PosInfinity)"
    by (simp add: sampleEnv_def js_def)
  moreover have "cleanExpression (js ''2+2'') = Some (js ''2+2'')"
    by (simp add: cleanExpression_eq sanitize_samples) (simp add: js_def isDigit_def)
  moreover have "evaluate sampleEnv (js ''2+2'') = Inr (JNumber (Fin 4))"
    by (simp add: sampleEnv_def)
  ultimately show ?thesis
    using calculateExpression_non_finite [of "js ''1/0''" "js ''1/0''" sampleEnv "JNumber PosInfinity"]
          calculateExpression_non_finite [of "js ''2+2''" "js ''2+2''" sampleEnv "JNumber (Fin 4)"]
    by blast
qed

section \<open>The prioritization generator\<close>

lemma rmatch_Lit_Cons:
  "rmatch ic (Lit a) (c # cs) = (if canon ic c = canon ic a then [cs] else [])"
  by (simp add: rmatch.simps(2))

lemma rmatch_word:
  "rmatch ic (word w) s =
     (if prefix (map (canon ic) w) (map (canon ic) s) then [drop (length w) s] else [])"
proof (induction w arbitrary: s rule: word.induct)
  case 1
  show ?case by (simp add: rmatch.simps(1))
next
  case (2 c)
  show ?case by (cases s) (simp_all add: rmatch.simps(2))
next
  case (3 c v va)
  show ?case
  proof (cases s)
    case Nil
    then show ?thesis by (simp add: rmatch.simps(5) rmatch.simps(2))
  next
    case (Cons d ds)
    then show ?thesis using 3 [of ds] by (simp add: rmatch.simps(5) rmatch_Lit_Cons)
  qed
qed

lemma rtest_word:
  "rtest ic (word w) s \<longleftrightarrow> sublist (map (canon ic) w) (map (canon ic) s)"
proof
  assume "rtest ic (word w) s"
  then obtain pre suf where ps: "s = pre @ suf" "prefix (map (canon ic) w) (map (canon ic) suf)"
    unfolding rtest_iff rmatch_word by (auto split: if_splits)
  then obtain zs where "map (canon ic) suf = map (canon ic) w @ zs" by (auto simp: prefix_def)
  with ps have "map (canon ic) s = map (canon ic) pre @ map (canon ic) w @ zs" by simp
  then show "sublist (map (canon ic) w) (map (canon ic) s)" unfolding sublist_def by blast
next
  assume "sublist (map (canon ic) w) (map (canon ic) s)"
  then obtain ps ss where h: "map (canon ic) s = ps @ map (canon ic) w @ ss"
    unfolding sublist_def by blast
  let ?pre = "take (length ps) s" and ?suf = "drop (length ps) s"
  have "map (canon ic) ?suf = drop (length ps) (map (canon ic) s)" by (simp add: drop_map)
  also have "\<dots> = map (canon ic) w @ ss" using h by simp
  finally have "prefix (map (canon ic) w) (map (canon ic) ?suf)" by simp
  then have "s = ?pre @ ?suf \<and> rmatch ic (word w) ?suf \<noteq> []" by (simp add: rmatch_word)
  then show "rtest ic (word w) s" unfolding rtest_iff by blast
qed

lemma rmatch_alts:
  "rs \<noteq> [] \<Longrightarrow> rmatch ic (alts rs) s \<noteq> [] \<longleftrightarrow> (\<exists>r\<in>set rs. rmatch ic r s \<noteq> [])"
proof (induction rs rule: alts.induct)
  case 1
  then show ?case by simp
next
  case (2 r)
  then show ?case by simp
next
  case (3 r v va)
  then show ?case by (simp add: rmatch.simps(6))
qed

lemma rtest_alts:
  "rs \<noteq> [] \<Longrightarrow> rtest ic (alts rs) s \<longleftrightarrow> (\<exists>r\<in>set rs. rtest ic r s)"
  unfolding rtest_iff by (simp add: rmatch_alts) blast

lemma rtest_words:
  "kws \<noteq> [] \<Longrightarrow> rtest True (words kws) t \<longleftrightarrow> list_ex (\<lambda>kw. mentions kw t) kws"
  by (simp add: words_def rtest_alts rtest_word mentions_def list_ex_iff)

lemma rankTask_eq:
  "rankTask t i = \<lparr>task = t, score = 2 * specUrgency t + specImpact t, index = i\<rparr>"
  by (simp add: rankTask_def specUrgency_def specImpact_def urgencyRx_def impactHighRx_def
      impactMidRx_def rtest_words Let_def)

lemma rmatch_separatorRx:
  "rmatch False separatorRx (c # cs) = (if isSeparator c then [cs] else [])"
  by (simp add: separatorRx_def rmatch.simps(6) rmatch_Lit_Cons canon_def isSeparator_def)

lemma splitOn_nonempty: "splitOn P s \<noteq> []"
  by (induction s) (simp_all split: list.splits)

lemma rsplitFrom_separatorRx:
  "rsplitFrom False separatorRx cur s =
     (cur @ hd (splitOn isSeparator s)) # tl (splitOn isSeparator s)"
proof (induction s arbitrary: cur)
  case Nil
  show ?case by (subst rsplitFrom.simps) simp
next
  case (Cons c cs)
  show ?case
    using splitOn_nonempty [of isSeparator cs]
    by (subst rsplitFrom.simps) (simp add: rmatch_separatorRx Cons split: list.splits)
qed

lemma rsplit_separatorRx: "rsplit False separatorRx s = splitOn isSeparator s"
proof (cases s)
  case Nil
  then show ?thesis by (simp add: rsplit_def separatorRx_def rmatch.simps(6) rmatch.simps(2))
next
  case (Cons c cs)
  then show ?thesis
    using splitOn_nonempty [of isSeparator s]
    by (simp add: rsplit_def rsplitFrom_separatorRx del: splitOn.simps)
qed

lemma taskLines_eq: "taskLines input = candidateTasks input"
  by (simp add: taskLines_def candidateTasks_def rsplit_separatorRx)

lemma mset_insertBy: "mset (insertBy cmp x ys) = add_mset x (mset ys)"
  by (induction ys) simp_all

lemma mset_sortBy: "mset (sortBy cmp xs) = mset xs"
  by (induction xs) (simp_all add: sortBy_def mset_insertBy)

lemma set_insertBy: "set (insertBy cmp x ys) = insert x (set ys)"
  using mset_insertBy [of cmp x ys] by (metis set_mset_add_mset_insert set_mset_mset)

lemma compareRanked_le: "compareRanked a b \<le> 0 \<longleftrightarrow> rankedLe a b"
  by (auto simp: compareRanked_def rankedLe_def Let_def)

lemma rankedLe_trans: "rankedLe a b \<Longrightarrow> rankedLe b c \<Longrightarrow> rankedLe a c"
  by (auto simp: rankedLe_def)

lemma rankedLe_total: "\<not> rankedLe a b \<Longrightarrow> rankedLe b a"
  by (auto simp: rankedLe_def)

lemma sorted_insertBy:
  "sorted_wrt rankedLe ys \<Longrightarrow> sorted_wrt rankedLe (insertBy compareRanked x ys)"
proof (induction ys)
  case Nil
  then show ?case by simp
next
  case (Cons y ys)
  show ?case
  proof (cases "rankedLe x y")
    case True
    then have "\<forall>z\<in>set ys. rankedLe x z" using Cons.prems by (auto intro: rankedLe_trans)
    with True Cons.prems show ?thesis by (simp add: compareRanked_le)
  next
    case False
    then have "rankedLe y x" by (rule rankedLe_total)
    with False Cons show ?thesis by (auto simp: compareRanked_le set_insertBy)
  qed
qed

lemma sorted_sortBy: "sorted_wrt rankedLe (sortBy compareRanked xs)"
proof (induction xs)
  case Nil
  show ?case by (simp add: sortBy_def)
next
  case (Cons x xs)
  then show ?case using sorted_insertBy [of "sortBy compareRanked xs" x] by (simp add: sortBy_def)
qed

lemma sorted_strict:
  "sorted_wrt rankedLe xs \<Longrightarrow> distinct (map index xs) \<Longrightarrow> sorted_wrt rankedBefore xs"
proof (induction xs)
  case Nil
  show ?case by simp
next
  case (Cons x xs)
  have "\<forall>y\<in>set xs. rankedBefore x y"
  proof
    fix y assume y: "y \<in> set xs"
    with Cons.prems have "rankedLe x y" "index x \<noteq> index y" by auto
    then show "rankedBefore x y" by (auto simp: rankedLe_def rankedBefore_def)
  qed
  with Cons show ?case by simp
qed

lemma map_index_mapIndexed: "map index (mapIndexed rankTask lines) = [0 ..< length lines]"
proof -
  have "map index (mapIndexed rankTask lines) = map fst (zip [0 ..< length lines] lines)"
    by (simp add: mapIndexed_def rankTask_eq case_prod_unfold comp_def)
  then show ?thesis by simp
qed

lemma distinct_index_rankedTasks: "distinct (map index (rankedTasks lines))"
proof -
  have "mset (map index (rankedTasks lines)) = mset (map index (mapIndexed rankTask lines))"
    by (simp add: rankedTasks_def mset_sortBy)
  then have "distinct (map index (rankedTasks lines)) = distinct (map index (mapIndexed rankTask lines))"
    by (rule mset_eq_imp_distinct_iff)
  then show ?thesis by (simp add: map_index_mapIndexed)
qed

lemma sorted_rankedTasks: "sorted_wrt rankedBefore (rankedTasks lines)"
  using sorted_sortBy [of "mapIndexed rankTask lines"] distinct_index_rankedTasks [of lines]
  by (simp add: rankedTasks_def sorted_strict)

lemma mset_rankedTasks: "mset (rankedTasks lines) = mset (mapIndexed rankTask lines)"
  by (simp add: rankedTasks_def mset_sortBy)

text \<open>
  The ranked list does not depend on the sorting algorithm: a list sorted by the strict
  order of the ranking is determined by its elements.
\<close>

lemma rankedBefore_asym: "rankedBefore a b \<Longrightarrow> \<not> rankedBefore b a"
  by (auto simp: rankedBefore_def)

lemma sorted_rankedBefore_unique:
  "sorted_wrt rankedBefore xs \<Longrightarrow> sorted_wrt rankedBefore ys \<Longrightarrow> mset xs = mset ys \<Longrightarrow> xs = ys"
proof (induction xs arbitrary: ys)
  case Nil
  then show ?case by simp
next
  case (Cons x xs)
  from Cons.prems(3) have "ys \<noteq> []" by auto
  then obtain y ys' where ys: "ys = y # ys'" by (cases ys) auto
  have xy: "x = y"
  proof (rule ccontr)
    assume ne: "x \<noteq> y"
    have "x \<in># mset ys" using Cons.prems(3) by (metis mset.simps(2) union_single_eq_member)
    with ne ys have "x \<in> set ys'" by simp
    with Cons.prems(2) ys have 1: "rankedBefore y x" by simp
    have "y \<in># mset (x # xs)" using Cons.prems(3) ys by simp
    with ne have "y \<in> set xs" by simp
    with Cons.prems(1) have "rankedBefore x y" by simp
    with 1 show False using rankedBefore_asym by blast
  qed
  with Cons.prems ys have "sorted_wrt rankedBefore xs" "sorted_wrt rankedBefore ys'" "mset xs = mset ys'"
    by simp_all
  then have "xs = ys'" by (rule Cons.IH)
  with xy ys show ?case by simp
qed

lemma rankedTasks_unique:
  "sorted_wrt rankedBefore ys \<Longrightarrow> mset ys = mset (mapIndexed rankTask lines) \<Longrightarrow>
   ys = rankedTasks lines"
  using sorted_rankedBefore_unique [of ys "rankedTasks lines"]
  by (simp add: sorted_rankedTasks mset_rankedTasks)

lemma mapIndexed_nth: "mapIndexed f xs = map (\<lambda>i. f (xs ! i) i) [0 ..< length xs]"
proof (rule nth_equalityI)
  show "length (mapIndexed f xs) = length (map (\<lambda>i. f (xs ! i) i) [0 ..< length xs])"
    by (simp add: mapIndexed_def)
next
  fix i assume "i < length (mapIndexed f xs)"
  then have "i < length xs" by (simp add: mapIndexed_def)
  then show "mapIndexed f xs ! i = map (\<lambda>i. f (xs ! i) i) [0 ..< length xs] ! i"
    by (simp add: mapIndexed_def)
qed

lemma length_mapIndexed: "length (mapIndexed f xs) = length xs"
  by (simp add: mapIndexed_def)

lemma length_rankedTasks: "length (rankedTasks lines) = length lines"
proof -
  have "size (mset (rankedTasks lines)) = size (mset (mapIndexed rankTask lines))"
    by (simp only: mset_rankedTasks)
  then show ?thesis by (simp add: length_mapIndexed)
qed

lemma isSpace_simp:
  "isSpace c =
     (9 \<le> c \<and> c \<le> 13 \<or> 32 \<le> c \<and> c \<le> 32 \<or> 160 \<le> c \<and> c \<le> 160 \<or>
      5760 \<le> c \<and> c \<le> 5760 \<or> 8192 \<le> c \<and> c \<le> 8202 \<or> 8232 \<le> c \<and> c \<le> 8233 \<or>
      8239 \<le> c \<and> c \<le> 8239 \<or> 8287 \<le> c \<and> c \<le> 8287 \<or>
      12288 \<le> c \<and> c \<le> 12288 \<or> 65279 \<le> c \<and> c \<le> 65279)"
  by (simp add: isSpace_def inRanges_def wsRanges_def)

lemma example_candidateTasks:
  "candidateTasks (js ''Draft email, Launch campaign today'') =
     [js ''Draft email'', js ''Launch campaign today'']"
  by (simp add: candidateTasks_def js_def isSeparator_def trim_def isSpace_simp)

lemma example_scores:
  "specUrgency (js ''Draft email'') = 1" "specImpact (js ''Draft email'') = 2"
  "specUrgency (js ''Launch campaign today'') = 3" "specImpact (js ''Launch campaign today'') = 3"
  by (simp_all add: specUrgency_def specImpact_def mentions_def js_def canon_def
      sublist_Cons_right)

lemma example_rankedTasks:
  "rankedTasks [js ''Draft email'', js ''Launch campaign today''] =
     [\<lparr>task = js ''Launch campaign today'', score = 9, index = 1\<rparr>,
      \<lparr>task = js ''Draft email'', score = 4, index = 0\<rparr>]"
  by (simp add: rankedTasks_def mapIndexed_nth rankTask_eq example_scores sortBy_def
      compareRanked_def upt_rec [of 0 "Suc (Suc 0)"] upt_rec [of "Suc 0"] numeral_2_eq_2)

lemma natToString_digit: "n < 10 \<Longrightarrow> natToString n = [48 + n]"
  by (simp add: natToString.simps)

lemma specUrgency_range: "specUrgency t \<in> {1, 3}"
  by (simp add: specUrgency_def)

lemma specImpact_range: "specImpact t \<in> {1, 2, 3}"
  by (simp add: specImpact_def)

lemma prioritiseTasks_eq:
  "prioritiseTasks input =
     (if candidateTasks input = [] then msgNoTasks
      else join nl (mapIndexed renderRanked (rankedTasks (candidateTasks input))))"
  by (simp add: prioritiseTasks_def taskLines_eq Let_def)

text \<open>
  Claim C4.  The generator splits the input at newlines, commas and semicolons, trims
  the pieces and keeps those longer than four code units.  Each task kept gets the
  score \<open>2 * urgency + impact\<close>, the urgency being 3 when the task mentions one of
  today, urgent, now, soon, asap (letter case ignored) and 1 otherwise, the impact 3,
  2 or 1 by its keyword tier.  With no task kept, the result is the instruction to
  provide a list of tasks.
\<close>

theorem prioritiseTasks_scores:
  "taskLines input = candidateTasks input \<and>
   rankTask t i = \<lparr>task = t, score = 2 * specUrgency t + specImpact t, index = i\<rparr> \<and>
   specUrgency t \<in> {1, 3} \<and> specImpact t \<in> {1, 2, 3} \<and>
   prioritiseTasks input =
     (if candidateTasks input = [] then msgNoTasks
      else join nl (mapIndexed renderRanked (rankedTasks (candidateTasks input)))) \<and>
   mset (rankedTasks lines) =
     mset (map (\<lambda>i. \<lparr>task = lines ! i,
                       score = 2 * specUrgency (lines ! i) + specImpact (lines ! i),
                       index = i\<rparr>) [0 ..< length lines])"
proof (intro conjI)
  show "mset (rankedTasks lines) =
     mset (map (\<lambda>i. \<lparr>task = lines ! i,
                       score = 2 * specUrgency (lines ! i) + specImpact (lines ! i),
                       index = i\<rparr>) [0 ..< length lines])"
    by (simp only: mset_rankedTasks mapIndexed_nth rankTask_eq)
qed (simp_all only: taskLines_eq rankTask_eq specUrgency_range specImpact_range prioritiseTasks_eq)

theorem prioritiseTasks_scores_witness:
  "taskLines (js ''Draft email, Launch campaign today'') =
     [js ''Draft email'', js ''Launch campaign today''] \<and>
   score (rankTask (js ''Draft email'') 0) = 4 \<and>
   score (rankTask (js ''Launch campaign today'') 1) = 9 \<and>
   prioritiseTasks (js ''a,b;c'') = msgNoTasks"
proof -
  have "candidateTasks (js ''a,b;c'') = []"
    by (simp add: candidateTasks_def js_def isSeparator_def trim_def isSpace_simp)
  then show ?thesis
    using prioritiseTasks_scores [of "js ''Draft email, Launch campaign today''" "js ''Draft email''" 0]
          prioritiseTasks_scores [of "js ''a,b;c''" "js ''Launch campaign today''" 1]
    by (simp add: example_candidateTasks example_scores)
qed

text \<open>
  Claim C3.  When at least one task is kept, the ranked list is the list of scored
  tasks ordered by descending score, and of two tasks with equal scores the one that
  came earlier in the input is ranked first; every ranked item is the input task at
  its index.  For "Draft email, Launch campaign today" the second task comes first,
  with score 9 against 4.
\<close>

theorem prioritiseTasks_stable_descending:
  assumes "taskLines input \<noteq> []"
  shows "prioritiseTasks input =
           join nl (mapIndexed renderRanked (rankedTasks (taskLines input))) \<and>
         mset (rankedTasks (taskLines input)) = mset (mapIndexed rankTask (taskLines input)) \<and>
         sorted_wrt rankedBefore (rankedTasks (taskLines input)) \<and>
         (\<forall>r\<in>set (rankedTasks (taskLines input)).
             index r < length (taskLines input) \<and> task r = taskLines input ! index r) \<and>
         rankedTasks (taskLines (js ''Draft email, Launch campaign today'')) =
           [\<lparr>task = js ''Launch campaign today'', score = 9, index = 1\<rparr>,
            \<lparr>task = js ''Draft email'', score = 4, index = 0\<rparr>]"
proof (intro conjI)
  show "prioritiseTasks input = join nl (mapIndexed renderRanked (rankedTasks (taskLines input)))"
    using assms by (simp add: prioritiseTasks_def Let_def)
  show "mset (rankedTasks (taskLines input)) = mset (mapIndexed rankTask (taskLines input))"
    by (rule mset_rankedTasks)
  show "sorted_wrt rankedBefore (rankedTasks (taskLines input))"
    by (rule sorted_rankedTasks)
  show "\<forall>r\<in>set (rankedTasks (taskLines input)).
           index r < length (taskLines input) \<and> task r = taskLines input ! index r"
  proof
    fix r assume "r \<in> set (rankedTasks (taskLines input))"
    then have "r \<in># mset (rankedTasks (taskLines input))" by simp
    then have "r \<in> set (mapIndexed rankTask (taskLines input))"
      unfolding mset_rankedTasks by simp
    then show "index r < length (taskLines input) \<and> task r = taskLines input ! index r"
      by (auto simp: mapIndexed_nth rankTask_eq)
  qed
  show "rankedTasks (taskLines (js ''Draft email, Launch campaign today'')) =
           [\<lparr>task = js ''Launch campaign today'', score = 9, index = 1\<rparr>,
            \<lparr>task = js ''Draft email'', score = 4, index = 0\<rparr>]"
    by (simp only: taskLines_eq example_candidateTasks example_rankedTasks)
qed

lemma example_tie:
  "candidateTasks (js ''Write report, Clean desk'') = [js ''Write report'', js ''Clean desk'']"
  "specUrgency (js ''Write report'') = 1" "specImpact (js ''Write report'') = 1"
  "specUrgency (js ''Clean desk'') = 1" "specImpact (js ''Clean desk'') = 1"
  by (simp_all add: candidateTasks_def isSeparator_def trim_def isSpace_simp
      specUrgency_def specImpact_def mentions_def js_def canon_def sublist_Cons_right)

theorem prioritiseTasks_stable_descending_witness:
  "prioritiseTasks (js ''Draft email, Launch campaign today'') =
     js ''1. Launch campaign today '' @ emDash @ js '' priority score 9'' @ nl @
     js ''2. Draft email '' @ emDash @ js '' priority score 4'' \<and>
   sorted_wrt rankedBefore
     [\<lparr>task = js ''Launch campaign today'', score = 9, index = 1\<rparr>,
      \<lparr>task = js ''Draft email'', score = 4, index = 0\<rparr>] \<and>
   rankedTasks (taskLines (js ''Write report, Clean desk'')) =
     [\<lparr>task = js ''Write report'', score = 3, index = 0\<rparr>,
      \<lparr>task = js ''Clean desk'', score = 3, index = 1\<rparr>]"
proof -
  have ne: "taskLines (js ''Draft email, Launch campaign today'') \<noteq> []"
    by (simp add: taskLines_eq example_candidateTasks)
  have tie: "rankedTasks (taskLines (js ''Write report, Clean desk'')) =
     [\<lparr>task = js ''Write report'', score = 3, index = 0\<rparr>,
      \<lparr>task = js ''Clean desk'', score = 3, index = 1\<rparr>]"
    by (simp add: taskLines_eq example_tie rankedTasks_def mapIndexed_nth rankTask_eq sortBy_def
      compareRanked_def upt_rec [of 0 "Suc (Suc 0)"] upt_rec [of "Suc 0"] numeral_2_eq_2)
  have "prioritiseTasks (js ''Draft email, Launch campaign today'') =
     js ''1. Launch campaign today '' @ emDash @ js '' priority score 9'' @ nl @
     js ''2. Draft email '' @ emDash @ js '' priority score 4''"
    using prioritiseTasks_stable_descending [OF ne, THEN conjunct1]
    unfolding taskLines_eq example_candidateTasks example_rankedTasks
    by (simp add: mapIndexed_nth renderRanked_def natToString_digit
        upt_rec [of 0 "Suc (Suc 0)"] upt_rec [of "Suc 0"] numeral_2_eq_2)
       (simp add: js_def)
  moreover have "sorted_wrt rankedBefore
     [\<lparr>task = js ''Launch campaign today'', score = 9, index = 1\<rparr>,
      \<lparr>task = js ''Draft email'', score = 4, index = 0\<rparr>]"
    using prioritiseTasks_stable_descending [OF ne, THEN conjunct2, THEN conjunct2, THEN conjunct1]
    unfolding taskLines_eq example_candidateTasks example_rankedTasks .
  ultimately show ?thesis using tie by blast
qed

section \<open>The summarization generator\<close>

lemma classPred_wsRanges: "classPred False False wsRanges = isSpace"
  by (rule ext) (simp add: classPred_def inClass_def isSpace_def)

lemma rreplace_ws_Nil: "rreplace False (Plus (Cls False wsRanges)) rep [] = []"
  by (subst rreplace.simps) (simp add: rmatch_Plus_Cls)

lemma rreplace_ws_Cons:
  "rreplace False (Plus (Cls False wsRanges)) rep (c # cs) =
     (if isSpace c then rep @ rreplace False (Plus (Cls False wsRanges)) rep (dropWhile isSpace cs)
      else c # rreplace False (Plus (Cls False wsRanges)) rep cs)"
proof (cases "isSpace c")
  case False
  then show ?thesis
    by (subst rreplace.simps) (simp add: rmatch_Plus_Cls classPred_wsRanges)
next
  case True
  have "suffixesWhile isSpace cs = hd (suffixesWhile isSpace cs) # tl (suffixesWhile isSpace cs)"
    using suffixesWhile_nonempty [of isSpace cs] by simp
  then have sw: "suffixesWhile isSpace cs = dropWhile isSpace cs # tl (suffixesWhile isSpace cs)"
    by (simp add: hd_suffixesWhile)
  have len: "length (dropWhile isSpace cs) < length (c # cs)"
    using length_dropWhile_le [of isSpace cs] by simp
  show ?thesis
    using True len
    by (subst rreplace.simps) (simp add: rmatch_Plus_Cls classPred_wsRanges, subst sw, simp)
qed

lemma rreplace_ws_set:
  "x \<in> set (rreplace False (Plus (Cls False wsRanges)) rep s) \<Longrightarrow>
   x \<in> set rep \<or> (x \<in> set s \<and> \<not> isSpace x)"
proof (induction "length s" arbitrary: s rule: less_induct)
  case less
  show ?case
  proof (cases s)
    case Nil
    with less.prems show ?thesis by (simp add: rreplace_ws_Nil)
  next
    case (Cons c cs)
    show ?thesis
    proof (cases "isSpace c")
      case False
      with less.prems Cons
      have "x = c \<or> x \<in> set (rreplace False (Plus (Cls False wsRanges)) rep cs)"
        by (simp add: rreplace_ws_Cons)
      then show ?thesis using less.hyps [of cs] Cons False by auto
    next
      case True
      with less.prems Cons
      have "x \<in> set rep \<or>
            x \<in> set (rreplace False (Plus (Cls False wsRanges)) rep (dropWhile isSpace cs))"
        by (simp add: rreplace_ws_Cons)
      moreover have "length (dropWhile isSpace cs) < length s"
        using length_dropWhile_le [of isSpace cs] Cons by simp
      moreover have "set (dropWhile isSpace cs) \<subseteq> set s"
        using set_dropWhileD [of _ isSpace cs] Cons by auto
      ultimately show ?thesis using less.hyps [of "dropWhile isSpace cs"] by blast
    qed
  qed
qed

lemma rreplace_ws_id:
  "\<forall>c\<in>set s. \<not> isSpace c \<Longrightarrow> rreplace False (Plus (Cls False wsRanges)) rep s = s"
  by (induction s) (simp_all add: rreplace_ws_Nil rreplace_ws_Cons)

lemma set_trim: "set (trim s) \<subseteq> set s"
proof -
  have "set (trim s) \<subseteq> set (dropWhile isSpace s)"
    using set_dropWhileD [of _ isSpace "rev (dropWhile isSpace s)"] by (auto simp: trim_def)
  then show ?thesis using set_dropWhileD [of _ isSpace s] by blast
qed

lemma trim_id: "\<forall>c\<in>set s. \<not> isSpace c \<Longrightarrow> trim s = s"
proof (cases s)
  case Nil
  then show ?thesis by (simp add: trim_def)
next
  case (Cons c cs)
  assume a: "\<forall>c\<in>set s. \<not> isSpace c"
  then have 1: "dropWhile isSpace s = s" using Cons by simp
  have "rev s \<noteq> []" using Cons by simp
  then have "rev s = hd (rev s) # tl (rev s)" by simp
  moreover have "\<not> isSpace (hd (rev s))" using a \<open>rev s \<noteq> []\<close>
    by (metis hd_in_set set_rev)
  ultimately have "dropWhile isSpace (rev s) = rev s" by (metis dropWhile.simps(2))
  with 1 show ?thesis by (simp add: trim_def)
qed

lemma isSpace_newline: "isSpace 10"
  by (simp add: isSpace_def inRanges_def wsRanges_def)

lemma bulletPoint_no_newline: "10 \<notin> set (bulletPoint m)"
proof -
  have "10 \<notin> set (trim (rreplace False (Plus (Cls False wsRanges)) (js '' '') (msg_content m)))"
    using set_trim rreplace_ws_set [of 10 "js '' ''" "msg_content m"] isSpace_newline
    by (auto simp: js_def)
  then show ?thesis by (simp add: bulletPoint_def Let_def js_def)
qed

lemma bulletPoint_prefix: "prefix (js ''- '') (bulletPoint m)"
  by (simp add: bulletPoint_def Let_def)

lemma count_join_nl:
  "xs \<noteq> [] \<Longrightarrow> \<forall>x\<in>set xs. 10 \<notin> set x \<Longrightarrow> count_list (join nl xs) 10 = length xs - 1"
proof (induction xs)
  case Nil
  then show ?case by simp
next
  case (Cons x xs)
  show ?case
  proof (cases xs)
    case Nil
    with Cons.prems show ?thesis by simp
  next
    case (Cons y ys)
    with Cons.IH Cons.prems have "count_list (join nl (y # ys)) 10 = length ys" by simp
    with Cons Cons.prems show ?thesis by (simp add: nl_def)
  qed
qed

lemma sliceFrom_last6: "sliceFrom (- 6) h = drop (length h - 6) h"
proof -
  have "nat (max (int (length h) + - 6) 0) = length h - 6" by simp
  then show ?thesis by (simp add: sliceFrom_def Let_def)
qed

lemma summarizeConversation_eq:
  "summarizeConversation history =
     (if shown history = [] then msgNothingToSummarise
      else join nl (js ''Here's what we covered recently:'' # map bulletPoint (shown history)))"
  by (simp add: summarizeConversation_def sliceFrom_last6 shown_def Let_def)

lemma length_shown: "length (shown history) \<le> 6"
proof -
  have "length (shown history) \<le> length (drop (length history - 6) history)"
    unfolding shown_def by (rule length_filter_le)
  also have "\<dots> \<le> 6" by simp
  finally show ?thesis .
qed

lemma length_shown_six:
  "length (shown history) = 6 \<longleftrightarrow>
   6 \<le> length history \<and> (\<forall>m\<in>set (drop (length history - 6) history). msg_role m \<noteq> System)"
proof
  assume six: "length (shown history) = 6"
  have le: "length (shown history) \<le> length (drop (length history - 6) history)"
    unfolding shown_def by (rule length_filter_le)
  with six have len: "6 \<le> length history" by simp
  then have "length (drop (length history - 6) history) = 6" by simp
  with six have "length (filter (\<lambda>m. msg_role m \<noteq> System) (drop (length history - 6) history)) =
                 length (drop (length history - 6) history)"
    by (simp add: shown_def)
  then have "\<forall>m\<in>set (drop (length history - 6) history). msg_role m \<noteq> System"
    using length_filter_less [of _ "drop (length history - 6) history" "\<lambda>m. msg_role m \<noteq> System"]
    by fastforce
  with len show "6 \<le> length history \<and>
      (\<forall>m\<in>set (drop (length history - 6) history). msg_role m \<noteq> System)" by blast
next
  assume "6 \<le> length history \<and>
      (\<forall>m\<in>set (drop (length history - 6) history). msg_role m \<noteq> System)"
  then show "length (shown history) = 6" by (simp add: shown_def)
qed

lemma count_summary:
  assumes "shown history \<noteq> []"
  shows "count_list (summarizeConversation history) 10 = length (shown history)"
proof -
  have "\<forall>x\<in>set (js ''Here's what we covered recently:'' # map bulletPoint (shown history)).
          10 \<notin> set x"
    by (auto simp: bulletPoint_no_newline) (simp add: js_def)
  then have "count_list (join nl (js ''Here's what we covered recently:'' #
                 map bulletPoint (shown history))) 10 =
             length (js ''Here's what we covered recently:'' # map bulletPoint (shown history)) - 1"
    by (intro count_join_nl) simp_all
  with assms show ?thesis by (simp add: summarizeConversation_eq)
qed

lemma subseq_shown: "subseq (shown history) history"
proof -
  have "subseq (shown history) (drop (length history - 6) history)"
    by (simp add: shown_def)
  moreover have "subseq (drop (length history - 6) history) history"
    by (intro suffix_imp_subseq suffix_drop)
  ultimately show ?thesis by (rule subseq_order.trans)
qed

lemma shown_all_system: "\<forall>m\<in>set history. msg_role m = System \<Longrightarrow> shown history = []"
  by (auto simp: shown_def filter_empty_conv dest: in_set_dropD)

lemma not_isSpace_letters:
  "\<not> isSpace 97" "\<not> isSpace 98" "\<not> isSpace 99" "\<not> isSpace 100" "\<not> isSpace 101"
  "\<not> isSpace 102"
  by (simp_all add: isSpace_def inRanges_def wsRanges_def)

lemma bulletPoint_samples:
  "bulletPoint \<lparr>msg_role = User, msg_content = js ''a''\<rparr> = js ''- You: a''"
  "bulletPoint \<lparr>msg_role = Assistant, msg_content = js ''b''\<rparr> = js ''- Radius: b''"
  "bulletPoint \<lparr>msg_role = User, msg_content = js ''c''\<rparr> = js ''- You: c''"
  "bulletPoint \<lparr>msg_role = Assistant, msg_content = js ''d''\<rparr> = js ''- Radius: d''"
  "bulletPoint \<lparr>msg_role = User, msg_content = js ''e''\<rparr> = js ''- You: e''"
  "bulletPoint \<lparr>msg_role = Assistant, msg_content = js ''f''\<rparr> = js ''- Radius: f''"
  by (simp_all add: bulletPoint_def js_def rreplace_ws_id trim_id not_isSpace_letters)

lemma shown_sampleHistory:
  "shown sampleHistory =
     [\<lparr>msg_role = Assistant, msg_content = js ''b''\<rparr>,
      \<lparr>msg_role = User, msg_content = js ''c''\<rparr>,
      \<lparr>msg_role = Assistant, msg_content = js ''d''\<rparr>,
      \<lparr>msg_role = User, msg_content = js ''e''\<rparr>,
      \<lparr>msg_role = Assistant, msg_content = js ''f''\<rparr>]"
  by (simp add: shown_def sampleHistory_def)

text \<open>
  Claim C2, as amended.  The generator takes the last six messages of the history,
  leaves out the system messages among them, and renders the others, oldest first,
  as bullet lines "- Speaker: content", one line each, under a heading; when none is
  left (so for a history without a non-system message) it returns the fixed text.
  At most six bullet lines are rendered, and six exactly when the history has six
  messages or more and none of its last six is a system message.
\<close>

theorem summarizeConversation_last_six:
  "summarizeConversation history =
     (if shown history = [] then msgNothingToSummarise
      else join nl (js ''Here's what we covered recently:'' # map bulletPoint (shown history))) \<and>
   shown history = filter (\<lambda>m. msg_role m \<noteq> System) (drop (length history - 6) history) \<and>
   subseq (shown history) history \<and>
   length (shown history) \<le> 6 \<and>
   (shown history \<noteq> [] \<longrightarrow>
      count_list (summarizeConversation history) 10 = length (shown history)) \<and>
   10 \<notin> set (bulletPoint m) \<and> prefix (js ''- '') (bulletPoint m) \<and>
   ((\<forall>m\<in>set history. msg_role m = System) \<longrightarrow>
      summarizeConversation history = msgNothingToSummarise) \<and>
   (length (shown history) = 6 \<longleftrightarrow>
      6 \<le> length history \<and>
      (\<forall>m\<in>set (drop (length history - 6) history). msg_role m \<noteq> System))"
proof (intro conjI)
  show "summarizeConversation history =
     (if shown history = [] then msgNothingToSummarise
      else join nl (js ''Here's what we covered recently:'' # map bulletPoint (shown history)))"
    by (rule summarizeConversation_eq)
  show "shown history = filter (\<lambda>m. msg_role m \<noteq> System) (drop (length history - 6) history)"
    by (rule shown_def)
  show "subseq (shown history) history" by (rule subseq_shown)
  show "length (shown history) \<le> 6" by (rule length_shown)
  show "shown history \<noteq> [] \<longrightarrow>
      count_list (summarizeConversation history) 10 = length (shown history)"
    using count_summary by blast
  show "10 \<notin> set (bulletPoint m)" by (rule bulletPoint_no_newline)
  show "prefix (js ''- '') (bulletPoint m)" by (rule bulletPoint_prefix)
  show "(\<forall>m\<in>set history. msg_role m = System) \<longrightarrow>
      summarizeConversation history = msgNothingToSummarise"
    by (simp add: summarizeConversation_eq shown_all_system)
  show "length (shown history) = 6 \<longleftrightarrow>
      6 \<le> length history \<and>
      (\<forall>m\<in>set (drop (length history - 6) history). msg_role m \<noteq> System)"
    by (rule length_shown_six)
qed

theorem summarizeConversation_last_six_witness:
  "summarizeConversation [\<lparr>msg_role = User, msg_content = js ''a''\<rparr>,
                          \<lparr>msg_role = Assistant, msg_content = js ''b''\<rparr>] =
     join nl [js ''Here's what we covered recently:'', js ''- You: a'', js ''- Radius: b''] \<and>
   count_list (summarizeConversation [\<lparr>msg_role = User, msg_content = js ''a''\<rparr>,
                          \<lparr>msg_role = Assistant, msg_content = js ''b''\<rparr>]) 10 = 2 \<and>
   summarizeConversation [\<lparr>msg_role = System, msg_content = js ''s''\<rparr>] =
     msgNothingToSummarise \<and>
   summarizeConversation [] = msgNothingToSummarise \<and>
   length (shown (butlast sampleHistory)) = 6"
proof -
  let ?h = "[\<lparr>msg_role = User, msg_content = js ''a''\<rparr>,
             \<lparr>msg_role = Assistant, msg_content = js ''b''\<rparr>]"
  have sh: "shown ?h = ?h" by (simp add: shown_def)
  have 1: "summarizeConversation ?h =
     join nl [js ''Here's what we covered recently:'', js ''- You: a'', js ''- Radius: b'']"
    using summarizeConversation_last_six [of ?h, THEN conjunct1]
    by (simp add: sh bulletPoint_samples)
  have "shown ?h \<noteq> [] \<longrightarrow> count_list (summarizeConversation ?h) 10 = length (shown ?h)"
    using summarizeConversation_last_six [of ?h] by blast
  then have 2: "count_list (summarizeConversation ?h) 10 = 2"
    unfolding sh by simp
  have 3: "summarizeConversation [\<lparr>msg_role = System, msg_content = js ''s''\<rparr>] =
     msgNothingToSummarise"
    using summarizeConversation_last_six [of "[\<lparr>msg_role = System, msg_content = js ''s''\<rparr>]"]
    by simp
  have 4: "summarizeConversation [] = msgNothingToSummarise"
    using summarizeConversation_last_six [of "[]"] by simp
  have "6 \<le> length (butlast sampleHistory) \<and>
        (\<forall>m\<in>set (drop (length (butlast sampleHistory) - 6) (butlast sampleHistory)).
            msg_role m \<noteq> System)"
    by (simp add: sampleHistory_def)
  then have 5: "length (shown (butlast sampleHistory)) = 6"
    using summarizeConversation_last_six [of "butlast sampleHistory"] by blast
  from 1 2 3 4 5 show ?thesis by blast
qed

theorem summarizeConversation_six_counterexample:
  "map msg_role sampleHistory = [User, Assistant, User, Assistant, User, Assistant, System] \<and>
   summarizeConversation sampleHistory =
     join nl [js ''Here's what we covered recently:'', js ''- Radius: b'', js ''- You: c'',
              js ''- Radius: d'', js ''- You: e'', js ''- Radius: f''] \<and>
   count_list (summarizeConversation sampleHistory) 10 = 5"
proof -
  have 1: "summarizeConversation sampleHistory =
     join nl [js ''Here's what we covered recently:'', js ''- Radius: b'', js ''- You: c'',
              js ''- Radius: d'', js ''- You: e'', js ''- Radius: f'']"
    by (simp add: summarizeConversation_eq shown_sampleHistory bulletPoint_samples)
  have "count_list (summarizeConversation sampleHistory) 10 = length (shown sampleHistory)"
    by (rule count_summary) (simp add: shown_sampleHistory)
  then have 2: "count_list (summarizeConversation sampleHistory) 10 = 5"
    by (simp add: shown_sampleHistory)
  have 3: "map msg_role sampleHistory = [User, Assistant, User, Assistant, User, Assistant, System]"
    by (simp add: sampleHistory_def)
  from 1 2 3 show ?thesis by blast
qed

section \<open>The dispatcher's replies\<close>

lemma followUpSuggestions_length: "length (followUpSuggestions i) = 3"
  by (cases i) simp_all

lemma runAgent_None:
  "find (\<lambda>message. msg_role message = User) (rev ms) = None \<Longrightarrow> runAgent e ms = Inr idleReply"
  by (simp add: runAgent_def)

lemma runAgent_Some:
  "find (\<lambda>message. msg_role message = User) (rev ms) = Some m \<Longrightarrow>
   runAgent e ms =
     Inr \<lparr>role = Assistant,
          content = fst (respond e (classifyIntent (trim (msg_content m))) (trim (msg_content m)) ms),
          steps = [\<lparr>title = js ''Intent Detection'',
                    step_content = js ''Input suggests a **'' @
                       intentName (classifyIntent (trim (msg_content m))) @
                       js ''** style response.''\<rparr>,
                   snd (respond e (classifyIntent (trim (msg_content m))) (trim (msg_content m)) ms),
                   \<lparr>title = js ''Next Move'',
                    step_content = js ''Suggested follow-up paths to continue the session.''\<rparr>],
          suggestions = followUpSuggestions (classifyIntent (trim (msg_content m)))\<rparr>"
  by (simp add: runAgent_def Let_def split: prod.splits)

lemma find_user_None:
  "\<forall>m\<in>set ms. msg_role m \<noteq> User \<Longrightarrow>
   find (\<lambda>message. msg_role message = User) (rev ms) = None"
  by (simp add: find_None_iff)

lemma natToString_nonempty: "natToString n \<noteq> []"
  by (subst natToString.simps) simp

lemma join_nonempty: "xs \<noteq> [] \<Longrightarrow> hd xs \<noteq> [] \<Longrightarrow> join sep xs \<noteq> []"
  by (induction sep xs rule: join.induct) simp_all

lemma mapIndexed_Cons_nonempty: "mapIndexed f (x # xs) \<noteq> []"
  by (simp add: mapIndexed_def upt_rec [of 0])

lemma hd_mapIndexed: "hd (mapIndexed f (x # xs)) = f x 0"
  by (simp add: mapIndexed_def upt_rec [of 0])

lemma buildPlan_nonempty: "buildPlan goal \<noteq> []"
  unfolding buildPlan_def Let_def
  by (intro join_nonempty mapIndexed_Cons_nonempty)
     (simp add: hd_mapIndexed numbered_def natToString_nonempty)

lemma brainstormIdeas_nonempty: "brainstormIdeas topic \<noteq> []"
  unfolding brainstormIdeas_def Let_def
  by (intro join_nonempty mapIndexed_Cons_nonempty)
     (simp add: hd_mapIndexed natToString_nonempty)

lemma summarizeConversation_nonempty: "summarizeConversation history \<noteq> []"
  by (simp add: summarizeConversation_eq msgNothingToSummarise_def join_nonempty js_def)

lemma prioritiseTasks_nonempty: "prioritiseTasks input \<noteq> []"
proof (cases "candidateTasks input")
  case Nil
  then show ?thesis by (simp add: prioritiseTasks_eq msgNoTasks_def js_def)
next
  case (Cons t ts)
  then have "length (rankedTasks (candidateTasks input)) = Suc (length ts)"
    by (simp add: length_rankedTasks)
  then obtain r rs where "rankedTasks (candidateTasks input) = r # rs"
    by (cases "rankedTasks (candidateTasks input)") auto
  then have "join nl (mapIndexed renderRanked (rankedTasks (candidateTasks input))) \<noteq> []"
    by (simp add: join_nonempty mapIndexed_Cons_nonempty hd_mapIndexed renderRanked_def
        natToString_nonempty)
  with Cons show ?thesis by (simp add: prioritiseTasks_eq)
qed

lemma fallbackContent_nonempty: "fallbackContent \<noteq> []"
  by (simp add: fallbackContent_def js_def)

lemma respond_nonempty: "fst (respond e i u ms) \<noteq> []"
  by (cases i)
     (simp_all add: respond_def calculateExpression_nonempty buildPlan_nonempty
        brainstormIdeas_nonempty summarizeConversation_nonempty prioritiseTasks_nonempty
        fallbackContent_nonempty split: option.splits)

lemma rmatch_word_Nil: "w \<noteq> [] \<Longrightarrow> rmatch ic (word w) [] = []"
  by (simp add: rmatch_word)

lemma mentions_Nil: "mentions kw [] \<longleftrightarrow> kw = []"
  by (simp add: mentions_def js_eq_Nil)

lemma rmatch_words_Nil:
  assumes "kws \<noteq> []" and "[] \<notin> set kws"
  shows "rmatch True (words kws) [] = []"
proof -
  have "rtest True (words kws) [] \<longleftrightarrow> list_ex (\<lambda>kw. mentions kw []) kws"
    using assms(1) by (rule rtest_words)
  with assms(2) have "\<not> rtest True (words kws) []"
    by (auto simp: list_ex_iff mentions_Nil)
  then show ?thesis by simp
qed

lemma classifyIntent_empty: "classifyIntent [] = Insight"
proof -
  have "\<not> rtest False mathRx []" by (simp add: mathRx_step0)
  moreover have "\<not> rtest True planRx []" by (simp add: planRx_def rmatch_words_Nil)
  moreover have "\<not> rtest True brainstormRx []"
    by (simp add: brainstormRx_def rmatch.simps(5) rmatch.simps(6) rmatch_word_Nil js_eq_Nil)
  moreover have "\<not> rtest True summarizeRx []" by (simp add: summarizeRx_def rmatch_words_Nil)
  moreover have "\<not> rtest True prioritizeRx []"
    by (simp add: prioritizeRx_def rmatch.simps(5) rmatch.simps(6) rmatch_word_Nil js_eq_Nil)
  ultimately show ?thesis by (simp add: classifyIntent_def)
qed

lemma matchKnowledge_empty: "matchKnowledge [] = None"
  by (simp add: matchKnowledge_def KNOWLEDGE_BASE_def rmatch_words_Nil)

lemma trim_empty: "trim [] = []"
  by (simp add: trim_def)

lemma runAgent_empty_user:
  "\<exists>r. runAgent e [\<lparr>msg_role = User, msg_content = []\<rparr>] = Inr r \<and> content r = fallbackContent"
  by (simp add: runAgent_def trim_empty classifyIntent_empty respond_def matchKnowledge_empty Let_def)

text \<open>
  Claim C9.  Whatever the message list, the reply of the dispatcher carries exactly
  three suggestions: the list keyed by the intent has length three for each of the
  six intents, the fallback \<open>insight\<close> included, and so has the idle reply.
\<close>

theorem runAgent_three_suggestions:
  "length (followUpSuggestions intent) = 3 \<and>
   (\<exists>r. runAgent e ms = Inr r \<and> length (suggestions r) = 3)"
proof (cases "find (\<lambda>message. msg_role message = User) (rev ms)")
  case None
  then show ?thesis by (simp add: runAgent_None idleReply_def followUpSuggestions_length)
next
  case (Some m)
  then show ?thesis by (simp add: runAgent_Some followUpSuggestions_length)
qed

text \<open>
  Claim C6.  When no message of the list has the role \<open>user\<close> (the empty list
  included), the dispatcher returns the fixed idle reply, whose content is
  "I'm ready whenever you are.", with one step and exactly three suggestions.
\<close>

theorem runAgent_idle:
  assumes "\<forall>m\<in>set ms. msg_role m \<noteq> User"
  shows "runAgent e ms = Inr idleReply \<and>
         content idleReply = js ''I'm ready whenever you are.'' \<and>
         length (steps idleReply) = 1 \<and>
         length (suggestions idleReply) = 3"
  using assms by (simp add: runAgent_None find_user_None idleReply_def)

theorem runAgent_idle_witness:
  "runAgent sampleEnv [\<lparr>msg_role = Assistant, msg_content = js ''Hello''\<rparr>,
                       \<lparr>msg_role = System, msg_content = js ''Be brief''\<rparr>] = Inr idleReply \<and>
   runAgent sampleEnv [] = Inr idleReply \<and>
   length (suggestions idleReply) = 3"
  using runAgent_idle [of "[\<lparr>msg_role = Assistant, msg_content = js ''Hello''\<rparr>,
                            \<lparr>msg_role = System, msg_content = js ''Be brief''\<rparr>]" sampleEnv]
        runAgent_idle [of "[]" sampleEnv]
  by simp


section \<open>What the dispatcher's reply holds\<close>

lemma find_last_user:
  assumes "msg_role m = User" and "\<forall>x\<in>set post. msg_role x \<noteq> User"
  shows "find (\<lambda>message. msg_role message = User) (rev (pre @ m # post)) = Some m"
proof -
  have "find (\<lambda>message. msg_role message = User) (rev post @ m # rev pre) = Some m"
    using assms by (induction post rule: rev_induct) simp_all
  then show ?thesis by simp
qed

lemma rtest_Alt: "rtest ic (Alt r1 r2) s \<longleftrightarrow> rtest ic r1 s \<or> rtest ic r2 s"
  unfolding rtest_iff by (auto simp: rmatch.simps(6))

lemma rtest_Seq_first: "rtest ic (Seq r1 r2) s \<Longrightarrow> rtest ic r1 s"
  unfolding rtest_iff rmatch_Seq_nonempty by (metis empty_iff list.set(1))

lemma rtest_word_mentions: "rtest True (word (js kw)) s \<longleftrightarrow> mentions kw s"
  by (simp add: rtest_word mentions_def)

lemma prioritizeRx_mentions:
  assumes "rtest True prioritizeRx u"
  shows "mentions ''prioriti'' u \<or> mentions ''ranking'' u \<or> mentions ''order'' u \<or>
         mentions ''what to do first'' u"
  using assms unfolding prioritizeRx_def rtest_Alt
  by (auto dest!: rtest_Seq_first simp: rtest_word_mentions)

lemma brainstormRx_mentions:
  assumes "rtest True brainstormRx u"
  shows "mentions ''idea'' u \<or> mentions ''ideas'' u \<or> mentions ''brainstorm'' u \<or>
         mentions ''creative'' u \<or> mentions ''name'' u"
  using assms unfolding brainstormRx_def rtest_Alt
  by (auto dest!: rtest_Seq_first simp: rtest_word_mentions)

lemma splitOn_Cons_keep:
  "\<not> P c \<Longrightarrow> splitOn P (c # cs) = (c # hd (splitOn P cs)) # tl (splitOn P cs)"
  using splitOn_nonempty [of P cs] by (simp split: list.splits)

lemma splitOn_hd_prefix: "\<forall>c\<in>set w. \<not> P c \<Longrightarrow> prefix w (hd (splitOn P (w @ b)))"
  by (induction w) (simp_all add: splitOn_Cons_keep del: splitOn.simps)

lemma splitOn_piece:
  assumes "\<forall>c\<in>set w. \<not> P c"
  shows "\<exists>p\<in>set (splitOn P (a @ w @ b)). sublist w p"
proof (induction a)
  case Nil
  have "hd (splitOn P (w @ b)) \<in> set (splitOn P (w @ b))"
    using splitOn_nonempty [of P "w @ b"] by simp
  moreover have "sublist w (hd (splitOn P (w @ b)))"
    using splitOn_hd_prefix [OF assms] by (rule prefix_imp_sublist)
  ultimately show ?case by auto
next
  case (Cons c a)
  then obtain p where p: "p \<in> set (splitOn P (a @ w @ b))" "sublist w p" by blast
  show ?case
  proof (cases "P c")
    case True
    with p show ?thesis by auto
  next
    case False
    let ?S = "splitOn P (a @ w @ b)"
    have S: "?S = hd ?S # tl ?S" using splitOn_nonempty [of P "a @ w @ b"] by simp
    have eq: "splitOn P ((c # a) @ w @ b) = (c # hd ?S) # tl ?S"
      using False by (simp add: splitOn_Cons_keep del: splitOn.simps)
    from p S have "p = hd ?S \<or> p \<in> set (tl ?S)" by (metis set_ConsD)
    then show ?thesis
    proof
      assume "p = hd ?S"
      with p have "sublist w (c # hd ?S)" by (simp add: sublist_Cons_right)
      with eq show ?thesis by simp
    next
      assume "p \<in> set (tl ?S)"
      with p eq show ?thesis by auto
    qed
  qed
qed

lemma dropWhile_keeps:
  "w \<noteq> [] \<Longrightarrow> \<not> Q (hd w) \<Longrightarrow> \<exists>x'. dropWhile Q (x @ w @ y) = x' @ w @ y"
proof (induction x)
  case Nil
  then have "dropWhile Q (w @ y) = w @ y" by (cases w) simp_all
  then show ?case by simp
next
  case (Cons c x)
  show ?case
  proof (cases "Q c")
    case True
    with Cons show ?thesis by simp
  next
    case False
    then have "dropWhile Q ((c # x) @ w @ y) = (c # x) @ w @ y" by simp
    then show ?thesis by blast
  qed
qed

lemma sublist_trim:
  assumes "sublist w p" and "w \<noteq> []" and "\<not> isSpace (hd w)" and "\<not> isSpace (last w)"
  shows "sublist w (trim p)"
proof -
  from assms(1) obtain x y where p: "p = x @ w @ y" unfolding sublist_def by blast
  obtain x' where 1: "dropWhile isSpace p = x' @ w @ y"
    using dropWhile_keeps [of w isSpace x y] assms(2,3) p by blast
  have "rev w \<noteq> []" "\<not> isSpace (hd (rev w))" using assms(2,4) by (simp_all add: hd_rev)
  then obtain y' where 2: "dropWhile isSpace (rev y @ rev w @ rev x') = y' @ rev w @ rev x'"
    using dropWhile_keeps [of "rev w" isSpace "rev y" "rev x'"] by blast
  have "trim p = rev (dropWhile isSpace (rev y @ rev w @ rev x'))"
    by (simp add: trim_def 1)
  also have "\<dots> = x' @ w @ rev y'" by (simp add: 2)
  finally show ?thesis by simp
qed

lemma canon_letter:
  assumes "97 \<le> k \<and> k \<le> 122" and "canon True c = canon True k"
  shows "65 \<le> c \<and> c \<le> 90 \<or> 97 \<le> c \<and> c \<le> 122"
  using assms by (auto simp: canon_def split: if_splits)

lemma canon_space: "canon True c = canon True 32 \<Longrightarrow> c = 32"
  by (auto simp: canon_def split: if_splits)

lemma letter_not_space: "65 \<le> c \<and> c \<le> 90 \<or> 97 \<le> c \<and> c \<le> 122 \<Longrightarrow> \<not> isSpace c"
  by (auto simp: isSpace_simp)

lemma mentions_candidate:
  assumes m: "mentions kw u"
    and len: "4 < length kw"
    and plain: "\<forall>k\<in>set (js kw). 97 \<le> k \<and> k \<le> 122 \<or> k = 32"
    and first: "97 \<le> hd (js kw) \<and> hd (js kw) \<le> 122"
    and final: "97 \<le> last (js kw) \<and> last (js kw) \<le> 122"
  shows "candidateTasks u \<noteq> []"
proof -
  from m obtain ps ss where "map (canon True) u = ps @ map (canon True) (js kw) @ ss"
    unfolding mentions_def sublist_def by blast
  then have "\<exists>a rest. u = a @ rest \<and> ps = map (canon True) a
      \<and> map (canon True) (js kw) @ ss = map (canon True) rest"
    unfolding map_eq_append_conv .
  then obtain a rest where ar: "u = a @ rest"
      "map (canon True) (js kw) @ ss = map (canon True) rest"
    by blast
  from ar(2) have "\<exists>w b. rest = w @ b \<and> map (canon True) (js kw) = map (canon True) w
      \<and> ss = map (canon True) b"
    unfolding append_eq_map_conv .
  then obtain w b where wb: "rest = w @ b" "map (canon True) w = map (canon True) (js kw)"
    by metis
  have u: "u = a @ w @ b" using ar wb by simp
  have lw: "length w = length kw"
    using wb(2) by (metis length_map js_def)
  then have ne: "w \<noteq> []" "js kw \<noteq> []" using len by (auto simp: js_def)
  have chars: "\<forall>c\<in>set w. \<exists>k\<in>set (js kw). canon True c = canon True k"
  proof
    fix c assume "c \<in> set w"
    then have "canon True c \<in> set (map (canon True) w)" by simp
    then have "canon True c \<in> set (map (canon True) (js kw))" by (simp only: wb(2))
    then show "\<exists>k\<in>set (js kw). canon True c = canon True k" by auto
  qed
  have nosep: "\<forall>c\<in>set w. \<not> isSeparator c"
  proof
    fix c assume "c \<in> set w"
    with chars obtain k where k: "k \<in> set (js kw)" "canon True c = canon True k" by blast
    with plain have "97 \<le> k \<and> k \<le> 122 \<or> k = 32" by blast
    then have "65 \<le> c \<and> c \<le> 90 \<or> 97 \<le> c \<and> c \<le> 122 \<or> c = 32"
      using k(2) canon_letter [of k c] canon_space [of c] by auto
    then show "\<not> isSeparator c" by (auto simp: isSeparator_def)
  qed
  have "canon True (hd w) = canon True (hd (js kw))"
    using wb(2) ne by (metis hd_map)
  then have hdw: "\<not> isSpace (hd w)"
    using first canon_letter [of "hd (js kw)" "hd w"] letter_not_space by blast
  have "canon True (last w) = canon True (last (js kw))"
    using wb(2) ne by (metis last_map)
  then have lastw: "\<not> isSpace (last w)"
    using final canon_letter [of "last (js kw)" "last w"] letter_not_space by blast
  obtain p where p: "p \<in> set (splitOn isSeparator u)" "sublist w p"
    using splitOn_piece [OF nosep, of a b] u by blast
  have "sublist w (trim p)" using p(2) ne(1) hdw lastw by (rule sublist_trim)
  then have "length w \<le> length (trim p)" by (rule sublist_length_le)
  with lw len have "4 < length (trim p)" by simp
  with p(1) have "trim p \<in> set (candidateTasks u)" by (simp add: candidateTasks_def)
  then show ?thesis by auto
qed

lemma classifyIntent_Prioritize_candidates:
  assumes "classifyIntent u = Prioritize"
  shows "candidateTasks u \<noteq> []"
proof -
  have "rtest True prioritizeRx u"
    using assms by (simp add: classifyIntent_def split: if_splits)
  then consider "mentions ''prioriti'' u" | "mentions ''ranking'' u" | "mentions ''order'' u"
    | "mentions ''what to do first'' u"
    using prioritizeRx_mentions by blast
  then show ?thesis
  proof cases
    case 1
    then show ?thesis by (rule mentions_candidate) (simp_all add: js_def)
  next
    case 2
    then show ?thesis by (rule mentions_candidate) (simp_all add: js_def)
  next
    case 3
    then show ?thesis by (rule mentions_candidate) (simp_all add: js_def)
  next
    case 4
    then show ?thesis by (rule mentions_candidate) (simp_all add: js_def)
  qed
qed

lemma hd_join: "xs \<noteq> [] \<Longrightarrow> hd xs \<noteq> [] \<Longrightarrow> hd (join sep xs) = hd (hd xs)"
  by (induction sep xs rule: join.induct) simp_all

lemma hd_buildPlan: "hd (buildPlan goal) = 49"
  unfolding buildPlan_def Let_def
  by (simp add: hd_join mapIndexed_Cons_nonempty hd_mapIndexed numbered_def natToString_digit)

lemma hd_brainstormIdeas: "hd (brainstormIdeas topic) = 49"
  unfolding brainstormIdeas_def Let_def
  by (simp add: hd_join mapIndexed_Cons_nonempty hd_mapIndexed natToString_digit)

lemma hd_summarizeConversation:
  "hd (summarizeConversation history) = 87 \<or> hd (summarizeConversation history) = 72"
  by (simp add: summarizeConversation_eq msgNothingToSummarise_def hd_join js_def)

lemma hd_prioritiseTasks:
  assumes "candidateTasks input \<noteq> []"
  shows "hd (prioritiseTasks input) = 49"
proof -
  have "length (rankedTasks (candidateTasks input)) = length (candidateTasks input)"
    by (rule length_rankedTasks)
  with assms obtain r rs where "rankedTasks (candidateTasks input) = r # rs"
    by (cases "rankedTasks (candidateTasks input)") auto
  then have "hd (join nl (mapIndexed renderRanked (rankedTasks (candidateTasks input)))) = 49"
    by (simp add: hd_join mapIndexed_Cons_nonempty hd_mapIndexed renderRanked_def
        natToString_digit)
  with assms show ?thesis by (simp add: prioritiseTasks_eq)
qed

lemma matchKnowledge_Some: "matchKnowledge input = Some insight \<Longrightarrow> insight \<noteq> [] \<and> hd insight = 45"
  by (auto simp: matchKnowledge_def KNOWLEDGE_BASE_def js_def split: if_splits)

lemma hd_fallbackContent: "hd fallbackContent = 45"
  by (simp add: fallbackContent_def js_def)

lemma classifyIntent_Math_digit: "classifyIntent u = Math \<Longrightarrow> list_ex isDigit u"
  unfolding classifyIntent_Math_iff list_ex_iff by auto

lemma hd_calculateExpression: "list_ex isDigit u \<Longrightarrow> hd (calculateExpression e u) = 84"
  by (simp add: calculateExpression_eq formatResult_def msgMalformed_def msgNonNumeric_def js_def
      split: sum.splits jsvalue.splits jsnumber.splits)

lemma respond_content:
  "fst (respond e intent u ms) =
     (case intent of
        Math \<Rightarrow> calculateExpression e u
      | Plan \<Rightarrow> buildPlan u
      | Brainstorm \<Rightarrow> brainstormIdeas u
      | Summarize \<Rightarrow> summarizeConversation ms
      | Prioritize \<Rightarrow> prioritiseTasks u
      | Insight \<Rightarrow> (case matchKnowledge u of Some insight \<Rightarrow> insight | None \<Rightarrow> fallbackContent))"
  by (cases intent) (auto simp: respond_def dest: matchKnowledge_Some split: option.splits)

lemma hd_respond:
  "hd (fst (respond e (classifyIntent u) u ms)) \<in> {84, 49, 87, 72, 45}"
proof (cases "classifyIntent u")
  case Math
  then show ?thesis
    by (simp add: respond_content hd_calculateExpression classifyIntent_Math_digit)
next
  case Plan
  then show ?thesis by (simp add: respond_content hd_buildPlan)
next
  case Brainstorm
  then show ?thesis by (simp add: respond_content hd_brainstormIdeas)
next
  case Summarize
  then show ?thesis using hd_summarizeConversation [of ms] by (auto simp: respond_content)
next
  case Prioritize
  then show ?thesis
    by (simp add: respond_content hd_prioritiseTasks classifyIntent_Prioritize_candidates)
next
  case Insight
  then show ?thesis
    by (auto simp: respond_content hd_fallbackContent dest: matchKnowledge_Some
        split: option.splits)
qed

lemma hd_guidance: "hd msgNoExpression = 73" "hd msgNoTasks = 80"
  by (simp_all add: msgNoExpression_def msgNoTasks_def js_def)

lemma respond_not_guidance:
  "fst (respond e (classifyIntent u) u ms) \<noteq> msgNoExpression"
  "fst (respond e (classifyIntent u) u ms) \<noteq> msgNoTasks"
  using hd_respond [of e u ms] hd_guidance by auto

lemma idle_not_guidance:
  "content idleReply \<noteq> msgNoExpression" "content idleReply \<noteq> msgNoTasks"
  by (simp_all add: idleReply_def msgNoExpression_def msgNoTasks_def js_def)

lemma runAgent_content:
  assumes "msg_role m = User" and "\<forall>x\<in>set post. msg_role x \<noteq> User"
  shows "replyContent (runAgent e (pre @ m # post)) =
           Some (fst (respond e (classifyIntent (trim (msg_content m))) (trim (msg_content m))
                        (pre @ m # post)))"
  using find_last_user [OF assms, of pre]
  by (simp add: runAgent_Some replyContent_def)

lemma cleanExpression_Math:
  assumes "classifyIntent u = Math"
  shows "\<exists>x. cleanExpression u = Some x \<and> x \<noteq> [] \<and>
             (isl (evaluate e x) \<longrightarrow> calculateExpression e u = msgMalformed)"
proof -
  have d: "list_ex isDigit u" using assms by (rule classifyIntent_Math_digit)
  then have "cleanExpression u = Some (sanitize u)" "sanitize u \<noteq> []"
    by (simp_all add: cleanExpression_eq sanitize_nonempty)
  moreover have "isl (evaluate e (sanitize u)) \<longrightarrow> calculateExpression e u = msgMalformed"
    using d by (auto simp: calculateExpression_eq isl_def)
  ultimately show ?thesis by blast
qed

lemma runAgent_guarded:
  "\<exists>reply. runAgent e messages = Inr reply \<and> role reply = Assistant \<and> content reply \<noteq> [] \<and>
     steps reply \<noteq> [] \<and> length (suggestions reply) = 3 \<and>
     content reply \<noteq> msgNoExpression \<and> content reply \<noteq> msgNoTasks"
proof (cases "find (\<lambda>message. msg_role message = User) (rev messages)")
  case None
  then have "runAgent e messages = Inr idleReply" by (rule runAgent_None)
  moreover have "role idleReply = Assistant" "content idleReply \<noteq> []" "steps idleReply \<noteq> []"
    "length (suggestions idleReply) = 3"
    by (simp_all add: idleReply_def js_def)
  ultimately show ?thesis using idle_not_guidance by blast
next
  case (Some m)
  then show ?thesis
    by (simp add: runAgent_Some respond_nonempty followUpSuggestions_length respond_not_guidance)
qed

lemma classifyIntent_MathI:
  "isDigit d1 \<Longrightarrow> isDigit d2 \<Longrightarrow> mid \<noteq> [] \<Longrightarrow> \<forall>c\<in>set mid. isExprChar c \<Longrightarrow>
   classifyIntent (pre @ d1 # mid @ d2 # post) = Math"
  unfolding classifyIntent_Math_iff by blast

lemma mathRx_digit: "rtest False mathRx s \<Longrightarrow> list_ex isDigit s"
  using classifyIntent_Math_digit [of s] by (simp add: classifyIntent_def)

lemma sample_blank: "trim (js ''   '') = []"
  by (simp add: trim_def js_def isSpace_simp)

lemma sample_malformed:
  "trim (js ''1+*2'') = js ''1+*2''"
  "classifyIntent (js ''1+*2'') = Math"
  "cleanExpression (js ''1+*2'') = Some (js ''1+*2'')"
  "evaluate sampleEnv (js ''1+*2'') = Inl ParseError"
proof -
  show "trim (js ''1+*2'') = js ''1+*2''"
    by (simp add: trim_def js_def isSpace_simp)
  show "classifyIntent (js ''1+*2'') = Math"
    using classifyIntent_MathI [of 49 50 "[43, 42]" "[]" "[]"]
    by (simp add: js_def isDigit_def isExprChar_def)
  show "cleanExpression (js ''1+*2'') = Some (js ''1+*2'')"
    by (simp add: cleanExpression_eq sanitize_def js_def isExprChar_def isDigit_def)
  show "evaluate sampleEnv (js ''1+*2'') = Inl ParseError"
    by (simp add: sampleEnv_def js_def)
qed

lemma sample_plan:
  "trim (js ''Plan my week'') = js ''Plan my week''"
  "classifyIntent (js ''Plan my week'') = Plan"
proof -
  show "trim (js ''Plan my week'') = js ''Plan my week''"
    by (simp add: trim_def js_def isSpace_simp)
  have "\<not> list_ex isDigit (js ''Plan my week'')" by (simp add: js_def isDigit_def)
  then have "\<not> rtest False mathRx (js ''Plan my week'')" using mathRx_digit by blast
  moreover have "mentions ''plan'' (js ''Plan my week'')"
    by (simp add: mentions_def js_def canon_def)
  then have "rtest True planRx (js ''Plan my week'')"
    by (simp add: planRx_def rtest_words)
  ultimately show "classifyIntent (js ''Plan my week'') = Plan"
    by (simp add: classifyIntent_def)
qed

lemma sample_prioritize_match:
  "rtest True prioritizeRx (js ''Please prioritize'')"
proof -
  have "rmatch True (word (js ''prioriti'')) (js ''prioritize'') = [js ''ze'']"
    unfolding rmatch_word by (simp add: js_def canon_def)
  moreover have "rmatch True (Cls False (chars ''sz'')) (js ''ze'') = [js ''e'']"
    by (simp add: rmatch.simps(4) inClass_def chars_def canon_def js_def)
  moreover have "rmatch True (Lit 101) (js ''e'') = [Nil]"
    by (simp add: rmatch.simps(2) js_def)
  ultimately have "rmatch True (Seq (word (js ''prioriti'')) (Seq (Cls False (chars ''sz'')) (Lit 101)))
          (js ''prioritize'') \<noteq> []"
    by (simp add: rmatch.simps(5))
  moreover have "js ''Please prioritize'' = js ''Please '' @ js ''prioritize''"
    by (simp add: js_def)
  ultimately have "rtest True (Seq (word (js ''prioriti'')) (Seq (Cls False (chars ''sz'')) (Lit 101)))
          (js ''Please prioritize'')"
    unfolding rtest_iff by blast
  then show ?thesis by (simp add: prioritizeRx_def rtest_Alt)
qed

lemma sample_prioritize_mentions:
  "\<not> list_ex (\<lambda>kw. mentions kw (js ''Please prioritize''))
        [''plan'', ''schedule'', ''roadmap'', ''steps'', ''strategy'']"
  "\<not> list_ex (\<lambda>kw. mentions kw (js ''Please prioritize''))
        [''idea'', ''ideas'', ''brainstorm'', ''creative'', ''name'']"
  "\<not> list_ex (\<lambda>kw. mentions kw (js ''Please prioritize''))
        [''summarise'', ''summarize'', ''recap'', ''tl;dr'']"
  "specUrgency (js ''Please prioritize'') = 1"
  "specImpact (js ''Please prioritize'') = 1"
  by (simp_all add: specUrgency_def specImpact_def mentions_def js_def canon_def
      sublist_Cons_right)

lemma sample_prioritize:
  "trim (js ''Please prioritize'') = js ''Please prioritize''"
  "classifyIntent (js ''Please prioritize'') = Prioritize"
  "candidateTasks (js ''Please prioritize'') = [js ''Please prioritize'']"
  "prioritiseTasks (js ''Please prioritize'') =
     js ''1. Please prioritize '' @ emDash @ js '' priority score 3''"
proof -
  show "trim (js ''Please prioritize'') = js ''Please prioritize''"
    by (simp add: trim_def js_def isSpace_simp)
  have "\<not> list_ex isDigit (js ''Please prioritize'')" by (simp add: js_def isDigit_def)
  then have "\<not> rtest False mathRx (js ''Please prioritize'')" using mathRx_digit by blast
  moreover have "\<not> rtest True planRx (js ''Please prioritize'')"
    using sample_prioritize_mentions(1) by (simp add: planRx_def rtest_words)
  moreover have "\<not> rtest True brainstormRx (js ''Please prioritize'')"
    using sample_prioritize_mentions(2) brainstormRx_mentions [of "js ''Please prioritize''"]
    by auto
  moreover have "\<not> rtest True summarizeRx (js ''Please prioritize'')"
    using sample_prioritize_mentions(3) by (simp add: summarizeRx_def rtest_words)
  ultimately show "classifyIntent (js ''Please prioritize'') = Prioritize"
    using sample_prioritize_match by (simp add: classifyIntent_def)
  show c: "candidateTasks (js ''Please prioritize'') = [js ''Please prioritize'']"
    by (simp add: candidateTasks_def js_def isSeparator_def trim_def isSpace_simp)
  have r: "rankedTasks [js ''Please prioritize''] =
          [\<lparr>task = js ''Please prioritize'', score = 3, index = 0\<rparr>]"
    by (simp add: rankedTasks_def mapIndexed_nth rankTask_eq sample_prioritize_mentions
        sortBy_def)
  show "prioritiseTasks (js ''Please prioritize'') =
     js ''1. Please prioritize '' @ emDash @ js '' priority score 3''"
    unfolding prioritiseTasks_eq c r
    by (simp add: mapIndexed_nth renderRanked_def natToString_digit js_def)
qed

text \<open>
  Claim C5, as amended.  The dispatcher never throws: for every message list its
  promise is fulfilled with a reply of the assistant that has a non-empty content,
  steps and three suggestions.  Without a user message the reply is the idle reply.
  Otherwise the content is the output of the generator selected by the intent of the
  trimmed text of the most recent user message.  A text that is empty or white space
  gets the reflective fallback prompt, and an arithmetic text on which the parser
  throws gets the malformed-expression message.  The generators' own guidance texts
  for a missing expression and for a missing task list are never the content of a
  reply: a text classified \<open>math\<close> holds a digit, and a text classified \<open>prioritize\<close>
  always yields a task, the request itself being ranked when it names no task.
\<close>

theorem runAgent_replies:
  "(\<exists>reply. runAgent e messages = Inr reply \<and> role reply = Assistant \<and> content reply \<noteq> [] \<and>
      steps reply \<noteq> [] \<and> length (suggestions reply) = 3 \<and>
      content reply \<noteq> msgNoExpression \<and> content reply \<noteq> msgNoTasks) \<and>
   ((\<forall>x\<in>set messages. msg_role x \<noteq> User) \<longrightarrow> runAgent e messages = Inr idleReply) \<and>
   (msg_role m = User \<and> (\<forall>x\<in>set post. msg_role x \<noteq> User) \<longrightarrow>
      replyContent (runAgent e (pre @ m # post)) =
        Some (case classifyIntent (trim (msg_content m)) of
                Math \<Rightarrow> calculateExpression e (trim (msg_content m))
              | Plan \<Rightarrow> buildPlan (trim (msg_content m))
              | Brainstorm \<Rightarrow> brainstormIdeas (trim (msg_content m))
              | Summarize \<Rightarrow> summarizeConversation (pre @ m # post)
              | Prioritize \<Rightarrow> prioritiseTasks (trim (msg_content m))
              | Insight \<Rightarrow>
                  (case matchKnowledge (trim (msg_content m)) of
                     Some insight \<Rightarrow> insight
                   | None \<Rightarrow> fallbackContent))) \<and>
   (msg_role m = User \<and> (\<forall>x\<in>set post. msg_role x \<noteq> User) \<and> trim (msg_content m) = [] \<longrightarrow>
      replyContent (runAgent e (pre @ m # post)) = Some fallbackContent) \<and>
   (msg_role m = User \<and> (\<forall>x\<in>set post. msg_role x \<noteq> User) \<and>
    classifyIntent (trim (msg_content m)) = Math \<longrightarrow>
      (\<exists>expression. cleanExpression (trim (msg_content m)) = Some expression \<and>
         expression \<noteq> [] \<and>
         (isl (evaluate e expression) \<longrightarrow>
          replyContent (runAgent e (pre @ m # post)) = Some msgMalformed))) \<and>
   (msg_role m = User \<and> (\<forall>x\<in>set post. msg_role x \<noteq> User) \<and>
    classifyIntent (trim (msg_content m)) = Prioritize \<longrightarrow>
      taskLines (trim (msg_content m)) \<noteq> [] \<and>
      replyContent (runAgent e (pre @ m # post)) =
        Some (join nl (mapIndexed renderRanked (rankedTasks (taskLines (trim (msg_content m)))))))"
proof -
  let ?u = "trim (msg_content m)"
  let ?out = "replyContent (runAgent e (pre @ m # post))"
  let ?user = "msg_role m = User"
  let ?last = "\<forall>x\<in>set post. msg_role x \<noteq> User"
  have content: "?out = Some (fst (respond e (classifyIntent ?u) ?u (pre @ m # post)))"
    if "?user \<and> ?last"
    using that by (simp add: runAgent_content)
  have c1: "\<exists>reply. runAgent e messages = Inr reply \<and> role reply = Assistant \<and>
      content reply \<noteq> [] \<and> steps reply \<noteq> [] \<and> length (suggestions reply) = 3 \<and>
      content reply \<noteq> msgNoExpression \<and> content reply \<noteq> msgNoTasks"
    by (rule runAgent_guarded)
  have c2: "(\<forall>x\<in>set messages. msg_role x \<noteq> User) \<longrightarrow> runAgent e messages = Inr idleReply"
    by (simp add: runAgent_None find_user_None)
  have c3: "?user \<and> ?last \<longrightarrow> ?out =
        Some (case classifyIntent ?u of
                Math \<Rightarrow> calculateExpression e ?u
              | Plan \<Rightarrow> buildPlan ?u
              | Brainstorm \<Rightarrow> brainstormIdeas ?u
              | Summarize \<Rightarrow> summarizeConversation (pre @ m # post)
              | Prioritize \<Rightarrow> prioritiseTasks ?u
              | Insight \<Rightarrow>
                  (case matchKnowledge ?u of Some insight \<Rightarrow> insight | None \<Rightarrow> fallbackContent))"
    using content by (simp only: respond_content) blast
  have c4: "?user \<and> ?last \<and> ?u = [] \<longrightarrow> ?out = Some fallbackContent"
  proof
    assume h: "?user \<and> ?last \<and> ?u = []"
    then have "?out = Some (fst (respond e (classifyIntent []) [] (pre @ m # post)))"
      using content by simp
    then show "?out = Some fallbackContent"
      by (simp add: respond_content classifyIntent_empty matchKnowledge_empty)
  qed
  have c5: "?user \<and> ?last \<and> classifyIntent ?u = Math \<longrightarrow>
      (\<exists>expression. cleanExpression ?u = Some expression \<and> expression \<noteq> [] \<and>
         (isl (evaluate e expression) \<longrightarrow> ?out = Some msgMalformed))"
  proof
    assume h: "?user \<and> ?last \<and> classifyIntent ?u = Math"
    then have "?out = Some (calculateExpression e ?u)"
      using content by (simp add: respond_content)
    then show "\<exists>expression. cleanExpression ?u = Some expression \<and> expression \<noteq> [] \<and>
         (isl (evaluate e expression) \<longrightarrow> ?out = Some msgMalformed)"
      using cleanExpression_Math [of ?u e] h by simp
  qed
  have c6: "?user \<and> ?last \<and> classifyIntent ?u = Prioritize \<longrightarrow>
      taskLines ?u \<noteq> [] \<and>
      ?out = Some (join nl (mapIndexed renderRanked (rankedTasks (taskLines ?u))))"
  proof
    assume h: "?user \<and> ?last \<and> classifyIntent ?u = Prioritize"
    then have "?out = Some (prioritiseTasks ?u)"
      using content by (simp add: respond_content)
    moreover have "taskLines ?u \<noteq> []"
      using h classifyIntent_Prioritize_candidates [of ?u] by (simp add: taskLines_eq)
    ultimately show "taskLines ?u \<noteq> [] \<and>
      ?out = Some (join nl (mapIndexed renderRanked (rankedTasks (taskLines ?u))))"
      by (simp add: prioritiseTasks_def Let_def)
  qed
  from c1 c2 c3 c4 c5 c6 show ?thesis
    by - (intro conjI, assumption+)
qed

theorem runAgent_replies_witness:
  "replyContent (runAgent sampleEnv [\<lparr>msg_role = User, msg_content = js ''   ''\<rparr>]) =
     Some fallbackContent \<and>
   replyContent (runAgent sampleEnv [\<lparr>msg_role = User, msg_content = js ''1+*2''\<rparr>,
                                     \<lparr>msg_role = Assistant, msg_content = js ''ok''\<rparr>]) =
     Some msgMalformed \<and>
   replyContent (runAgent sampleEnv [\<lparr>msg_role = System, msg_content = js ''Be brief''\<rparr>,
                                     \<lparr>msg_role = User, msg_content = js ''Plan my week''\<rparr>]) =
     Some (buildPlan (js ''Plan my week'')) \<and>
   replyContent (runAgent sampleEnv [\<lparr>msg_role = User, msg_content = js ''Please prioritize''\<rparr>]) =
     Some (join nl (mapIndexed renderRanked (rankedTasks [js ''Please prioritize'']))) \<and>
   runAgent sampleEnv [\<lparr>msg_role = Assistant, msg_content = js ''ok''\<rparr>] = Inr idleReply"
proof -
  have 1: "replyContent (runAgent sampleEnv [\<lparr>msg_role = User, msg_content = js ''   ''\<rparr>]) =
     Some fallbackContent"
    using runAgent_replies [where e = sampleEnv and pre = "[]" and post = "[]"
        and m = "\<lparr>msg_role = User, msg_content = js ''   ''\<rparr>",
        THEN conjunct2, THEN conjunct2, THEN conjunct2, THEN conjunct1]
    by (simp add: sample_blank)
  have "\<exists>expression. cleanExpression (js ''1+*2'') = Some expression \<and> expression \<noteq> [] \<and>
     (isl (evaluate sampleEnv expression) \<longrightarrow>
      replyContent (runAgent sampleEnv [\<lparr>msg_role = User, msg_content = js ''1+*2''\<rparr>,
                                        \<lparr>msg_role = Assistant, msg_content = js ''ok''\<rparr>]) =
        Some msgMalformed)"
    using runAgent_replies [where e = sampleEnv and pre = "[]"
        and post = "[\<lparr>msg_role = Assistant, msg_content = js ''ok''\<rparr>]"
        and m = "\<lparr>msg_role = User, msg_content = js ''1+*2''\<rparr>",
        THEN conjunct2, THEN conjunct2, THEN conjunct2, THEN conjunct2, THEN conjunct1]
    by (simp add: sample_malformed)
  then have 2: "replyContent (runAgent sampleEnv [\<lparr>msg_role = User, msg_content = js ''1+*2''\<rparr>,
                                     \<lparr>msg_role = Assistant, msg_content = js ''ok''\<rparr>]) =
     Some msgMalformed"
    by (auto simp: sample_malformed)
  have 3: "replyContent (runAgent sampleEnv [\<lparr>msg_role = System, msg_content = js ''Be brief''\<rparr>,
                                     \<lparr>msg_role = User, msg_content = js ''Plan my week''\<rparr>]) =
     Some (buildPlan (js ''Plan my week''))"
    using runAgent_replies [where e = sampleEnv
        and pre = "[\<lparr>msg_role = System, msg_content = js ''Be brief''\<rparr>]" and post = "[]"
        and m = "\<lparr>msg_role = User, msg_content = js ''Plan my week''\<rparr>",
        THEN conjunct2, THEN conjunct2, THEN conjunct1]
    by (simp add: sample_plan)
  have 4: "replyContent (runAgent sampleEnv [\<lparr>msg_role = User, msg_content = js ''Please prioritize''\<rparr>]) =
     Some (join nl (mapIndexed renderRanked (rankedTasks [js ''Please prioritize''])))"
    using runAgent_replies [where e = sampleEnv and pre = "[]" and post = "[]"
        and m = "\<lparr>msg_role = User, msg_content = js ''Please prioritize''\<rparr>",
        THEN conjunct2, THEN conjunct2, THEN conjunct2, THEN conjunct2, THEN conjunct2]
    by (simp add: sample_prioritize taskLines_eq)
  have 5: "runAgent sampleEnv [\<lparr>msg_role = Assistant, msg_content = js ''ok''\<rparr>] = Inr idleReply"
    using runAgent_replies [where e = sampleEnv
        and messages = "[\<lparr>msg_role = Assistant, msg_content = js ''ok''\<rparr>]",
        THEN conjunct2, THEN conjunct1]
    by simp
  from 1 2 3 4 5 show ?thesis
    by - (intro conjI, assumption+)
qed

theorem runAgent_prioritize_counterexample:
  "classifyIntent (trim (js ''Please prioritize'')) = Prioritize \<and>
   taskLines (trim (js ''Please prioritize'')) = [js ''Please prioritize''] \<and>
   replyContent (runAgent sampleEnv [\<lparr>msg_role = User, msg_content = js ''Please prioritize''\<rparr>]) =
     Some (js ''1. Please prioritize '' @ emDash @ js '' priority score 3'') \<and>
   js ''1. Please prioritize '' @ emDash @ js '' priority score 3'' \<noteq> msgNoTasks"
proof -
  have "replyContent (runAgent sampleEnv
          ([] @ \<lparr>msg_role = User, msg_content = js ''Please prioritize''\<rparr> # [])) =
        Some (fst (respond sampleEnv Prioritize (js ''Please prioritize'')
                ([] @ \<lparr>msg_role = User, msg_content = js ''Please prioritize''\<rparr> # [])))"
    using runAgent_content [of "\<lparr>msg_role = User, msg_content = js ''Please prioritize''\<rparr>"
        "[]" sampleEnv "[]"]
    by (simp add: sample_prioritize)
  then have "replyContent (runAgent sampleEnv
          [\<lparr>msg_role = User, msg_content = js ''Please prioritize''\<rparr>]) =
        Some (js ''1. Please prioritize '' @ emDash @ js '' priority score 3'')"
    by (simp add: respond_content sample_prioritize)
  moreover have "js ''1. Please prioritize '' @ emDash @ js '' priority score 3'' \<noteq> msgNoTasks"
    by (simp add: msgNoTasks_def js_def)
  ultimately show ?thesis by (simp add: sample_prioritize taskLines_eq)
qed

section \<open>The responses of the route\<close>
































end
